theory Spec2Isabelle
  imports Main
begin

section \<open>Data model\<close>

text \<open>
  The session orchestrator of \<^verbatim>\<open>src/index.js\<close> (class \<^verbatim>\<open>Bitwap\<close>) is embedded as
  functions on an explicit state. Its collaborators (blockstore, want manager, decision
  engine, network, the notification emitter and the pushable of each get stream) are
  either part of that state or observed through a trace of the calls made to them.
  Callbacks are continuations: a function that ends by calling \<^verbatim>\<open>cb(err)\<close> returns
  the value \<open>err\<close> together with the state reached at that moment.

  A multihash is a byte string; \<^verbatim>\<open>mh.toB58String\<close> belongs to an external library and is
  taken as the parameter \<open>b58\<close> of every function that uses it. A peer id is
  represented by its base58 form.
\<close>

type_synonym multihash = string
type_synonym bytes = string
type_synonym peerId = string

datatype error = Error string | TypeError string

fun message_of :: "error \<Rightarrow> string" where
  "message_of (Error m) = m"
| "message_of (TypeError m) = m"

record block =
  key :: multihash
  data :: bytes

record entry =
  ekey :: multihash
  priority :: int
  cancel :: bool

text \<open>
  Modelled from the spec: the \<^verbatim>\<open>Message\<close> class (\<^verbatim>\<open>src/message\<close>) is not among the
  sources. A message is the union of a \<open>full\<close> flag, want entries and blocks; \<open>blocks\<close>
  lists the values of its block map in insertion order.
\<close>

record message =
  full :: bool
  entries :: "entry list"
  blocks :: "block list"

datatype logarg = Str string | Msg message

datatype event =
    Log string "logarg list"
  | LogError string "logarg list"
  | EngineMessageReceived peerId message
  | EngineReceivedBlock block
  | EngineStart
  | EngineStop
  | WmRun
  | WmStop
  | WmWantBlocks "multihash list"
  | WmCancelWants "multihash list"
  | WmUnwantBlocks "multihash list"
  | NetworkStart
  | NetworkStop
  | BlockstoreHas multihash
  | BlockstorePut block bool
  | BlockstoreGet multihash
  | SetTimeout nat
  | Emit string "block option"
  | Called nat "error option"

subsection \<open>Blockstore\<close>

text \<open>
  Modelled from the spec: the blockstore is an external collaborator offering
  \<open>has\<close>, \<open>get\<close> and \<open>put\<close>, all of which may fail. Its contents map a key to the stored
  bytes; the outcome of each coming call is scripted by a list (\<open>Some e\<close>: that call
  fails with \<open>e\<close>; an exhausted script means no further fault).
\<close>

record blockstore =
  contents :: "multihash \<rightharpoonup> bytes"
  hasFaults :: "error option list"
  putFaults :: "error option list"
  getFaults :: "error option list"

fun nextFault :: "error option list \<Rightarrow> error option" where
  "nextFault [] = None"
| "nextFault (f # fs) = f"

subsection \<open>Want list and want manager\<close>

text \<open>
  Modelled from the spec: \<^verbatim>\<open>src/wantmanager\<close> and its want list are not among the
  sources. \<open>add\<close> increments the reference count (inserting with count 1 and keeping the
  larger priority), \<open>remove\<close> decrements it and deletes the entry when it reaches 0,
  \<open>removeForce\<close> deletes regardless. The manager adds or removes each key and enqueues,
  for every connected peer, a delta carrying the new wants, respectively the cancels
  of the keys that left the list.
\<close>

record want =
  wpriority :: int
  refcount :: nat

type_synonym wantlist = "multihash \<rightharpoonup> want"

definition wl_add :: "multihash \<Rightarrow> int \<Rightarrow> wantlist \<Rightarrow> wantlist" where
  "wl_add k p w = (case w k of
       None \<Rightarrow> w(k \<mapsto> \<lparr>wpriority = p, refcount = 1\<rparr>)
     | Some e \<Rightarrow> w(k \<mapsto> \<lparr>wpriority = max (wpriority e) p, refcount = Suc (refcount e)\<rparr>))"

definition wl_remove :: "multihash \<Rightarrow> wantlist \<Rightarrow> bool \<times> wantlist" where
  "wl_remove k w = (case w k of
       None \<Rightarrow> (False, w)
     | Some e \<Rightarrow> (if refcount e \<le> 1 then (True, w(k := None))
                 else (False, w(k \<mapsto> e\<lparr>refcount := refcount e - 1\<rparr>))))"

definition wl_removeForce :: "multihash \<Rightarrow> wantlist \<Rightarrow> bool \<times> wantlist" where
  "wl_removeForce k w = (w k \<noteq> None, w(k := None))"

definition wl_contains :: "multihash \<Rightarrow> wantlist \<Rightarrow> bool" where
  "wl_contains k w = (w k \<noteq> None)"

record wantmanager =
  wl :: wantlist
  peers :: "peerId list"
  queued :: "(peerId \<times> entry list) list"

definition defaultPriority :: int where
  "defaultPriority = 1"

definition enqueue :: "entry list \<Rightarrow> wantmanager \<Rightarrow> wantmanager" where
  "enqueue es m = (if es = [] then m
     else m\<lparr>queued := queued m @ map (\<lambda>p. (p, es)) (peers m)\<rparr>)"

fun removeEach :: "(multihash \<Rightarrow> wantlist \<Rightarrow> bool \<times> wantlist) \<Rightarrow> multihash list \<Rightarrow> wantlist
    \<Rightarrow> multihash list \<times> wantlist" where
  "removeEach rm [] w = ([], w)"
| "removeEach rm (k # ks) w =
     (let (gone, w1) = rm k w; (rest, w2) = removeEach rm ks w1
      in ((if gone then [k] else []) @ rest, w2))"

definition wantmanager_wantBlocks :: "multihash list \<Rightarrow> wantmanager \<Rightarrow> wantmanager" where
  "wantmanager_wantBlocks ks m =
     enqueue (map (\<lambda>k. \<lparr>ekey = k, priority = defaultPriority, cancel = False\<rparr>) ks)
       (m\<lparr>wl := foldl (\<lambda>w k. wl_add k defaultPriority w) (wl m) ks\<rparr>)"

definition wantmanager_cancelWants :: "multihash list \<Rightarrow> wantmanager \<Rightarrow> wantmanager" where
  "wantmanager_cancelWants ks m =
     (let (gone, w) = removeEach wl_remove ks (wl m)
      in enqueue (map (\<lambda>k. \<lparr>ekey = k, priority = defaultPriority, cancel = True\<rparr>) gone)
           (m\<lparr>wl := w\<rparr>))"

definition wantmanager_unwantBlocks :: "multihash list \<Rightarrow> wantmanager \<Rightarrow> wantmanager" where
  "wantmanager_unwantBlocks ks m =
     (let (gone, w) = removeEach wl_removeForce ks (wl m)
      in enqueue (map (\<lambda>k. \<lparr>ekey = k, priority = defaultPriority, cancel = True\<rparr>) gone)
           (m\<lparr>wl := w\<rparr>))"

subsection \<open>Get streams and notifications\<close>

text \<open>
  Each call of \<^verbatim>\<open>getStream\<close> creates closures over its own \<^verbatim>\<open>unwantListeners\<close>,
  \<^verbatim>\<open>blockListeners\<close>, \<^verbatim>\<open>finished\<close> and \<^verbatim>\<open>pusher\<close>; the record below is that closure
  state, the pushable being its buffer of pushed blocks and its end mark
  (\<open>Some None\<close>: ended, \<open>Some (Some e)\<close>: ended with error \<open>e\<close>). The listener tables are
  objects keyed by the base58 key and hold the identity of the listener function.
\<close>

record getstream =
  unwantListeners :: "(string \<times> nat) list"
  blockListeners :: "(string \<times> nat) list"
  finished :: bool
  buffer :: "block list"
  ended :: "error option option"

text \<open>
  A listener function is either the unwant closure of a stream for a key or the block
  closure of a stream. The emitter keeps, in registration order, the event name, the
  identity of the function and the function; all registrations are made with \<^verbatim>\<open>once\<close>.
\<close>

datatype listener = UnwantListener nat multihash | BlockListener nat

type_synonym registration = "string \<times> nat \<times> listener"

record bitswap =
  blockstore :: blockstore
  wm :: wantmanager
  engineFaults :: "error option list"
  blocksRecvd :: nat
  dupBlocksRecvd :: nat
  dupDataRecvd :: nat
  notifications :: "registration list"
  streams :: "nat \<rightharpoonup> getstream"
  nextStream :: nat
  nextId :: nat
  trace :: "event list"

datatype callback = Undefined | Noop | Callback nat

section \<open>Collaborators\<close>

definition record_event :: "event \<Rightarrow> bitswap \<Rightarrow> bitswap" where
  "record_event e s = s\<lparr>trace := trace s @ [e]\<rparr>"

definition log :: "string \<Rightarrow> logarg list \<Rightarrow> bitswap \<Rightarrow> bitswap" where
  "log fmt args s = record_event (Log fmt args) s"

definition log_error :: "string \<Rightarrow> logarg list \<Rightarrow> bitswap \<Rightarrow> bitswap" where
  "log_error fmt args s = record_event (LogError fmt args) s"

definition blockstore_has :: "multihash \<Rightarrow> bitswap \<Rightarrow> (error + bool) \<times> bitswap" where
  "blockstore_has k s =
     (let st = blockstore s;
          s1 = record_event (BlockstoreHas k) (s\<lparr>blockstore := st\<lparr>hasFaults := tl (hasFaults st)\<rparr>\<rparr>)
      in case nextFault (hasFaults st) of
           Some e \<Rightarrow> (Inl e, s1)
         | None \<Rightarrow> (Inr (contents st k \<noteq> None), s1))"

definition blockstore_put :: "block \<Rightarrow> bitswap \<Rightarrow> error option \<times> bitswap" where
  "blockstore_put b s =
     (let st = blockstore s
      in case nextFault (putFaults st) of
           Some e \<Rightarrow> (Some e, record_event (BlockstorePut b False)
                       (s\<lparr>blockstore := st\<lparr>putFaults := tl (putFaults st)\<rparr>\<rparr>))
         | None \<Rightarrow> (None, record_event (BlockstorePut b True)
                       (s\<lparr>blockstore := st\<lparr>putFaults := tl (putFaults st),
                                           contents := (contents st)(key b \<mapsto> data b)\<rparr>\<rparr>)))"

definition blockstore_getStream :: "multihash \<Rightarrow> bitswap \<Rightarrow> (error + block) \<times> bitswap" where
  "blockstore_getStream k s =
     (let st = blockstore s;
          s1 = record_event (BlockstoreGet k) (s\<lparr>blockstore := st\<lparr>getFaults := tl (getFaults st)\<rparr>\<rparr>)
      in case nextFault (getFaults st) of
           Some e \<Rightarrow> (Inl e, s1)
         | None \<Rightarrow> (case contents st k of
                      None \<Rightarrow> (Inl (Error ''not found''), s1)
                    | Some d \<Rightarrow> (Inr \<lparr>key = k, data = d\<rparr>, s1)))"

definition engine_messageReceived :: "peerId \<Rightarrow> message \<Rightarrow> bitswap \<Rightarrow> error option \<times> bitswap" where
  "engine_messageReceived p m s =
     (nextFault (engineFaults s),
      record_event (EngineMessageReceived p m) (s\<lparr>engineFaults := tl (engineFaults s)\<rparr>))"

definition wm_wantBlocks :: "multihash list \<Rightarrow> bitswap \<Rightarrow> bitswap" where
  "wm_wantBlocks ks s = record_event (WmWantBlocks ks) (s\<lparr>wm := wantmanager_wantBlocks ks (wm s)\<rparr>)"

definition wm_cancelWants :: "multihash list \<Rightarrow> bitswap \<Rightarrow> bitswap" where
  "wm_cancelWants ks s = record_event (WmCancelWants ks) (s\<lparr>wm := wantmanager_cancelWants ks (wm s)\<rparr>)"

definition wm_unwantBlocks :: "multihash list \<Rightarrow> bitswap \<Rightarrow> bitswap" where
  "wm_unwantBlocks ks s = record_event (WmUnwantBlocks ks) (s\<lparr>wm := wantmanager_unwantBlocks ks (wm s)\<rparr>)"

text \<open>
  Calling a callback: \<open>undefined\<close> is not a function, so calling it throws; the empty
  arrow function does nothing; the call of a caller's function is recorded.
\<close>

fun invoke :: "callback \<Rightarrow> error option \<Rightarrow> bitswap \<Rightarrow> error + bitswap" where
  "invoke Undefined r s = Inl (TypeError ''cb is not a function'')"
| "invoke Noop r s = Inr s"
| "invoke (Callback n) r s = Inr (record_event (Called n r) s)"

text \<open>\<^verbatim>\<open>cb || (() => {})\<close>\<close>

fun orNoop :: "callback \<Rightarrow> callback" where
  "orNoop Undefined = Noop"
| "orNoop c = c"

section \<open>The orchestrator\<close>

subsection \<open>Notification emitter\<close>

definition unwantEvent :: "string \<Rightarrow> string" where
  "unwantEvent keyS = ''unwant:'' @ keyS"

definition blockEvent :: "string \<Rightarrow> string" where
  "blockEvent keyS = ''block:'' @ keyS"

definition removeListener :: "string \<Rightarrow> nat \<Rightarrow> bitswap \<Rightarrow> bitswap" where
  "removeListener name f s =
     s\<lparr>notifications := filter (\<lambda>(ev, g, l). \<not> (ev = name \<and> g = f)) (notifications s)\<rparr>"

definition once :: "string \<Rightarrow> nat \<Rightarrow> listener \<Rightarrow> bitswap \<Rightarrow> bitswap" where
  "once name f l s = s\<lparr>notifications := notifications s @ [(name, f, l)]\<rparr>"

subsection \<open>\<^verbatim>\<open>getStream\<close>: the closures\<close>

definition pusher_push :: "nat \<Rightarrow> block \<Rightarrow> bitswap \<Rightarrow> bitswap" where
  "pusher_push sid b s = (case streams s sid of
       None \<Rightarrow> s
     | Some st \<Rightarrow> (if ended st \<noteq> None then s
                  else s\<lparr>streams := (streams s)(sid \<mapsto> st\<lparr>buffer := buffer st @ [b]\<rparr>)\<rparr>))"

definition pusher_end :: "nat \<Rightarrow> error option \<Rightarrow> bitswap \<Rightarrow> bitswap" where
  "pusher_end sid err s = (case streams s sid of
       None \<Rightarrow> s
     | Some st \<Rightarrow> (if ended st \<noteq> None then s
                  else s\<lparr>streams := (streams s)(sid \<mapsto> st\<lparr>ended := Some err\<rparr>)\<rparr>))"

definition finish :: "nat \<Rightarrow> bitswap \<Rightarrow> bitswap" where
  "finish sid s = (case streams s sid of
       None \<Rightarrow> s
     | Some st \<Rightarrow> (if finished st \<and> blockListeners st = [] then pusher_end sid None s else s))"

definition cleanupListener :: "(multihash \<Rightarrow> string) \<Rightarrow> nat \<Rightarrow> multihash \<Rightarrow> bitswap \<Rightarrow> bitswap" where
  "cleanupListener b58 sid k s =
     (let keyS = b58 k;
          s1 = (case streams s sid of
                  None \<Rightarrow> s
                | Some st \<Rightarrow> (case map_of (unwantListeners st) keyS of
                      None \<Rightarrow> s
                    | Some f \<Rightarrow> (removeListener (unwantEvent keyS) f s)
                        \<lparr>streams := (streams s)(sid \<mapsto>
                           st\<lparr>unwantListeners := filter (\<lambda>(n, g). n \<noteq> keyS) (unwantListeners st)\<rparr>)\<rparr>));
          s2 = (case streams s1 sid of
                  None \<Rightarrow> s1
                | Some st \<Rightarrow> (case map_of (blockListeners st) keyS of
                      None \<Rightarrow> s1
                    | Some f \<Rightarrow> (removeListener (blockEvent keyS) f s1)
                        \<lparr>streams := (streams s1)(sid \<mapsto>
                           st\<lparr>blockListeners := filter (\<lambda>(n, g). n \<noteq> keyS) (blockListeners st)\<rparr>)\<rparr>))
      in finish sid s2)"

definition addListener :: "(multihash \<Rightarrow> string) \<Rightarrow> nat \<Rightarrow> multihash \<Rightarrow> bitswap \<Rightarrow> bitswap" where
  "addListener b58 sid k s = (case streams s sid of
       None \<Rightarrow> s
     | Some st \<Rightarrow>
         (let keyS = b58 k;
              u = nextId s;
              b = Suc (nextId s);
              st1 = st\<lparr>unwantListeners := (keyS, u) # filter (\<lambda>(n, g). n \<noteq> keyS) (unwantListeners st)\<rparr>;
              st2 = st1\<lparr>blockListeners := (keyS, b) # filter (\<lambda>(n, g). n \<noteq> keyS) (blockListeners st1)\<rparr>;
              s1 = s\<lparr>streams := (streams s)(sid \<mapsto> st2), nextId := Suc (Suc (nextId s))\<rparr>
          in once (blockEvent keyS) b (BlockListener sid)
               (once (unwantEvent keyS) u (UnwantListener sid k) s1)))"

text \<open>
  What a registered function does when the emitter calls it. The block closure pushes
  the block it is given; it is registered on block events only, which are always
  emitted with a block.
\<close>

fun runListener :: "(multihash \<Rightarrow> string) \<Rightarrow> listener \<Rightarrow> block option \<Rightarrow> bitswap \<Rightarrow> bitswap" where
  "runListener b58 (UnwantListener sid k) arg s =
     cleanupListener b58 sid k (log (''manual unwant: '' @ b58 k) [] s)"
| "runListener b58 (BlockListener sid) (Some b) s = pusher_push sid b s"
| "runListener b58 (BlockListener sid) None s = s"

text \<open>
  \<^verbatim>\<open>notifications.emit\<close>: the emitter calls a copy of the functions registered under the
  name, in registration order; a \<^verbatim>\<open>once\<close> registration removes itself before it runs.
\<close>

definition emit :: "(multihash \<Rightarrow> string) \<Rightarrow> string \<Rightarrow> block option \<Rightarrow> bitswap \<Rightarrow> bitswap" where
  "emit b58 name arg s =
     foldl (\<lambda>s1 (ev, f, l). runListener b58 l arg (removeListener ev f s1))
       (record_event (Emit name arg) s)
       (filter (\<lambda>(ev, f, l). ev = name) (notifications s))"

definition getStream :: "bitswap \<Rightarrow> nat \<times> bitswap" where
  "getStream s =
     (nextStream s,
      s\<lparr>streams := (streams s)(nextStream s \<mapsto>
           \<lparr>unwantListeners = [], blockListeners = [], finished = False, buffer = [], ended = None\<rparr>),
        nextStream := Suc (nextStream s)\<rparr>)"

text \<open>The end of the sink (\<^verbatim>\<open>pull.onEnd\<close>), with the error that ended it, if any.\<close>

definition sink_onEnd :: "nat \<Rightarrow> error option \<Rightarrow> bitswap \<Rightarrow> bitswap" where
  "sink_onEnd sid err s = (case streams s sid of
       None \<Rightarrow> s
     | Some st \<Rightarrow>
         (let s1 = s\<lparr>streams := (streams s)(sid \<mapsto> st\<lparr>finished := True\<rparr>)\<rparr>
          in case err of Some e \<Rightarrow> pusher_end sid (Some e) s1 | None \<Rightarrow> finish sid s1))"

text \<open>
  One key written to the sink and carried through its stages: \<^verbatim>\<open>blockstore.has\<close>, then
  either the listeners and the want, or the read from the blockstore, the cancel and
  the push. An error of a stage ends the sink; an ended sink reads no further key.
\<close>

definition sink_write :: "(multihash \<Rightarrow> string) \<Rightarrow> nat \<Rightarrow> multihash \<Rightarrow> bitswap \<Rightarrow> bitswap" where
  "sink_write b58 sid k s = (case streams s sid of
       None \<Rightarrow> s
     | Some st \<Rightarrow> (if finished st then s
         else (case blockstore_has k s of
             (Inl e, s1) \<Rightarrow> sink_onEnd sid (Some e) s1
           | (Inr False, s1) \<Rightarrow> wm_wantBlocks [k] (addListener b58 sid k s1)
           | (Inr True, s1) \<Rightarrow> (case blockstore_getStream k s1 of
                 (Inl e, s2) \<Rightarrow> sink_onEnd sid (Some e) s2
               | (Inr b, s2) \<Rightarrow> pusher_push sid b (wm_cancelWants [key b] s2)))))"

text \<open>
  One read of the source: the next pushed block, if any, passes the
  \<^verbatim>\<open>pull.through\<close> that cleans up the listeners of its key.
\<close>

definition source_read :: "(multihash \<Rightarrow> string) \<Rightarrow> nat \<Rightarrow> bitswap \<Rightarrow> block option \<times> bitswap" where
  "source_read b58 sid s = (case streams s sid of
       None \<Rightarrow> (None, s)
     | Some st \<Rightarrow> (case buffer st of
           [] \<Rightarrow> (None, s)
         | b # bs \<Rightarrow> (Some b, cleanupListener b58 sid (key b)
                        (s\<lparr>streams := (streams s)(sid \<mapsto> st\<lparr>buffer := bs\<rparr>)\<rparr>))))"

subsection \<open>Storing a block\<close>

text \<open>
  \<^verbatim>\<open>retry({times, interval: 400}, ...)\<close>: the argument counts the attempts left after
  the current one; a failed attempt that is not the last is followed by the timer.
\<close>

fun retry :: "block \<Rightarrow> nat \<Rightarrow> bitswap \<Rightarrow> error option \<times> bitswap" where
  "retry b 0 s = blockstore_put b s"
| "retry b (Suc n) s = (case blockstore_put b s of
       (None, s1) \<Rightarrow> (None, s1)
     | (Some e, s1) \<Rightarrow> retry b n (record_event (SetTimeout 400) s1))"

definition tryPutBlock :: "block \<Rightarrow> nat \<Rightarrow> bitswap \<Rightarrow> error option \<times> bitswap" where
  "tryPutBlock b ntimes s = retry b (ntimes - 1) (log ''trying to put block %s'' [Str (data b)] s)"

text \<open>
  \<^verbatim>\<open>hasBlock\<close> up to the call of its callback: the result is the argument of \<^verbatim>\<open>cb\<close>.
\<close>

definition hasBlock_run :: "(multihash \<Rightarrow> string) \<Rightarrow> block \<Rightarrow> bitswap \<Rightarrow> error option \<times> bitswap" where
  "hasBlock_run b58 b s = (case tryPutBlock b 4 s of
       (Some e, s1) \<Rightarrow>
         (Some e, log_error ''Error writing block to blockstore: %s'' [Str (message_of e)] s1)
     | (None, s1) \<Rightarrow>
         (None, record_event (EngineReceivedBlock b)
                  (emit b58 (blockEvent (b58 (key b))) (Some b)
                     (log ''put block: %s'' [Str (b58 (key b))] s1))))"

definition hasBlock :: "(multihash \<Rightarrow> string) \<Rightarrow> block \<Rightarrow> callback \<Rightarrow> bitswap \<Rightarrow> error + bitswap" where
  "hasBlock b58 b cb s =
     (let cb1 = orNoop cb;
          (r, s1) = hasBlock_run b58 b s
      in invoke cb1 r s1)"

subsection \<open>Receiving a message\<close>

definition updateReceiveCounters :: "block \<Rightarrow> bitswap \<Rightarrow> error option \<times> bitswap" where
  "updateReceiveCounters b s =
     (case blockstore_has (key b) (s\<lparr>blocksRecvd := blocksRecvd s + 1\<rparr>) of
        (Inl e, s1) \<Rightarrow> (Some e, log ''blockstore.has error: %s'' [Str (message_of e)] s1)
      | (Inr True, s1) \<Rightarrow>
          (Some (Error ''Already have block''),
           s1\<lparr>dupBlocksRecvd := dupBlocksRecvd s1 + 1,
              dupDataRecvd := dupDataRecvd s1 + length (data b)\<rparr>)
      | (Inr False, s1) \<Rightarrow> (None, s1))"

text \<open>The loop over the blocks that collects the keys to cancel.\<close>

fun wantedKeys :: "(multihash \<Rightarrow> string) \<Rightarrow> peerId \<Rightarrow> block list \<Rightarrow> multihash list \<Rightarrow> bitswap
    \<Rightarrow> multihash list \<times> bitswap" where
  "wantedKeys b58 p [] keys s = (keys, s)"
| "wantedKeys b58 p (b # bs) keys s =
     (if \<not> wl_contains (key b) (wl (wm s))
      then wantedKeys b58 p bs keys
             (log ''received un-askes-for %s from %s'' [Str (b58 (key b)), Str p] s)
      else wantedKeys b58 p bs (keys @ [key b]) s)"

text \<open>
  The function that \<^verbatim>\<open>eachLimit\<close> applies to a block: the series of the counters and
  of \<^verbatim>\<open>hasBlock\<close>, both of whose callbacks continue the series without an error. The
  blocks of a message are taken one after the other, in the order of the block map.
\<close>

definition receiveBlock :: "(multihash \<Rightarrow> string) \<Rightarrow> peerId \<Rightarrow> block \<Rightarrow> bitswap \<Rightarrow> bitswap" where
  "receiveBlock b58 p b s =
     (let (r1, s1) = updateReceiveCounters b s;
          s2 = (case r1 of
                  Some e \<Rightarrow> s1
                | None \<Rightarrow> log ''got block from %s'' [Str p, Str (data b)] s1);
          (r2, s3) = hasBlock_run b58 b s2
      in case r2 of
           Some e \<Rightarrow> log_error ''receiveMessage hasBlock error: %s'' [Str (message_of e)] s3
         | None \<Rightarrow> s3)"

text \<open>The part of \<^verbatim>\<open>_receiveMessage\<close> before the blocks are looked at.\<close>

definition receiveEngine :: "peerId \<Rightarrow> message \<Rightarrow> bitswap \<Rightarrow> bitswap" where
  "receiveEngine p incoming s =
     (let (err, s1) = engine_messageReceived p incoming
                        (log ''receiving message from %s'' [Str p] s)
      in case err of
           Some e \<Rightarrow> log ''failed to receive message'' [Msg incoming] s1
         | None \<Rightarrow> s1)"

text \<open>The cancels of the wanted keys, sent before the blocks are stored.\<close>

definition receiveCancels :: "(multihash \<Rightarrow> string) \<Rightarrow> peerId \<Rightarrow> message \<Rightarrow> bitswap \<Rightarrow> bitswap" where
  "receiveCancels b58 p incoming s =
     (let (keys, s1) = wantedKeys b58 p (blocks incoming) [] (receiveEngine p incoming s)
      in wm_cancelWants keys s1)"

text \<open>
  \<^verbatim>\<open>_receiveMessage\<close> up to the call of its callback, which never receives an error.
\<close>

definition receiveMessage_run :: "(multihash \<Rightarrow> string) \<Rightarrow> peerId \<Rightarrow> message \<Rightarrow> bitswap \<Rightarrow> bitswap" where
  "receiveMessage_run b58 p incoming s =
     (if blocks incoming = [] then receiveEngine p incoming s
      else foldl (\<lambda>s1 b. receiveBlock b58 p b s1) (receiveCancels b58 p incoming s)
             (blocks incoming))"

definition receiveMessage :: "(multihash \<Rightarrow> string) \<Rightarrow> peerId \<Rightarrow> message \<Rightarrow> callback \<Rightarrow> bitswap
    \<Rightarrow> error + bitswap" where
  "receiveMessage b58 p incoming cb s =
     (let cb1 = orNoop cb
      in invoke cb1 None (receiveMessage_run b58 p incoming s))"

subsection \<open>The other operations\<close>

definition unwantBlocks :: "(multihash \<Rightarrow> string) \<Rightarrow> multihash list \<Rightarrow> bitswap \<Rightarrow> bitswap" where
  "unwantBlocks b58 keys s =
     foldl (\<lambda>s1 k. emit b58 (unwantEvent (b58 k)) None s1) (wm_unwantBlocks keys s) keys"

definition cancelWants :: "multihash list \<Rightarrow> bitswap \<Rightarrow> bitswap" where
  "cancelWants keys s = wm_cancelWants keys s"

definition start :: "bitswap \<Rightarrow> bitswap" where
  "start s = record_event EngineStart (record_event NetworkStart (record_event WmRun s))"

definition stop :: "bitswap \<Rightarrow> bitswap" where
  "stop s = record_event EngineStop (record_event NetworkStop (record_event WmStop s))"

text \<open>The state the constructor builds, around a blockstore and the connected peers.\<close>

definition new_bitswap :: "blockstore \<Rightarrow> peerId list \<Rightarrow> bitswap" where
  "new_bitswap store ps =
     \<lparr>blockstore = store,
      wm = \<lparr>wl = Map.empty, peers = ps, queued = []\<rparr>,
      engineFaults = [],
      blocksRecvd = 0, dupBlocksRecvd = 0, dupDataRecvd = 0,
      notifications = [], streams = Map.empty, nextStream = 0, nextId = 0,
      trace = []\<rparr>"

subsection \<open>A single get\<close>

text \<open>
  Modelled from the spec: the tests call \<^verbatim>\<open>getBlock(key, cb)\<close>, which the orchestrator
  under \<^verbatim>\<open>src\<close> does not define; it is a thin wrapper over the stream, whose sink
  receives the one key and then ends. The result is the stream the caller reads.
\<close>

definition getBlock :: "(multihash \<Rightarrow> string) \<Rightarrow> multihash \<Rightarrow> bitswap \<Rightarrow> nat \<times> bitswap" where
  "getBlock b58 k s =
     (let (sid, s1) = getStream s
      in (sid, sink_onEnd sid None (sink_write b58 sid k s1)))"

section \<open>Notions used by the properties\<close>

fun isLog :: "event \<Rightarrow> bool" where
  "isLog (Log f a) = True"
| "isLog e = False"

text \<open>The events of \<open>n\<close> failed attempts to put a block, each followed by the timer.\<close>

definition failedPuts :: "block \<Rightarrow> nat \<Rightarrow> event list" where
  "failedPuts b n = concat (replicate n [BlockstorePut b False, SetTimeout 400])"






fun reportedPresent :: "block \<times> bitswap \<Rightarrow> bool" where
  "reportedPresent (b, s) =
     (nextFault (hasFaults (blockstore s)) = None \<and> contents (blockstore s) (key b) \<noteq> None)"

section \<open>Example inputs\<close>

text \<open>
  In the examples a key is written in its base58 form, so that the encoding passed for
  \<open>b58\<close> is the identity.
\<close>

definition emptyStore :: blockstore where
  "emptyStore = \<lparr>contents = Map.empty, hasFaults = [], putFaults = [], getFaults = []\<rparr>"

definition k1 :: multihash where
  "k1 = ''Qm1''"

definition b1 :: block where
  "b1 = \<lparr>key = ''Qm1'', data = ''hello''\<rparr>"

definition b2 :: block where
  "b2 = \<lparr>key = ''Qm2'', data = ''world!''\<rparr>"


definition msg12 :: message where
  "msg12 = \<lparr>full = False, entries = [], blocks = [b1, b2]\<rparr>"

text \<open>A blockstore that holds \<open>b1\<close>.\<close>

definition storeWithB1 :: blockstore where
  "storeWithB1 = \<lparr>contents = [''Qm1'' \<mapsto> ''hello''], hasFaults = [], putFaults = [], getFaults = []\<rparr>"


text \<open>An orchestrator with one connected peer on which one get of \<open>k1\<close> is pending.\<close>

definition wantingB1 :: bitswap where
  "wantingB1 = snd (getBlock id k1 (new_bitswap emptyStore [''peerA'']))"

text \<open>The same with a second pending get of \<open>k1\<close>.\<close>

definition twoGets :: bitswap where
  "twoGets = snd (getBlock id k1 wantingB1)"

text \<open>The two gets, once \<open>b1\<close> has been added by \<^verbatim>\<open>hasBlock\<close>.\<close>

definition delivered :: bitswap where
  "delivered = snd (hasBlock_run id b1 twoGets)"

text \<open>The two gets, after \<^verbatim>\<open>unwantBlocks\<close> of their key.\<close>

definition unwanted :: bitswap where
  "unwanted = unwantBlocks id [k1] twoGets"

text \<open>One pending get of \<open>k1\<close>, then \<open>b1\<close> added locally by \<^verbatim>\<open>hasBlock\<close>.\<close>

definition afterLocalAdd :: bitswap where
  "afterLocalAdd = snd (hasBlock_run id b1 wantingB1)"

text \<open>A new get stream on an orchestrator whose blockstore holds \<open>b1\<close>.\<close>

definition freshStream :: bitswap where
  "freshStream = snd (getStream (new_bitswap storeWithB1 [''peerA'']))"

section \<open>Auxiliary facts\<close>

subsection \<open>What the listeners and the emitter leave unchanged\<close>

lemmas log_defs = record_event_def log_def log_error_def

lemma pusher_end_frame:
  "trace (pusher_end sid e s) = trace s \<and> blockstore (pusher_end sid e s) = blockstore s \<and>
   wm (pusher_end sid e s) = wm s \<and> blocksRecvd (pusher_end sid e s) = blocksRecvd s \<and>
   dupBlocksRecvd (pusher_end sid e s) = dupBlocksRecvd s \<and>
   dupDataRecvd (pusher_end sid e s) = dupDataRecvd s \<and>
   notifications (pusher_end sid e s) = notifications s"
  by (simp add: pusher_end_def split: option.splits)

lemma pusher_push_frame:
  "trace (pusher_push sid b s) = trace s \<and> blockstore (pusher_push sid b s) = blockstore s \<and>
   wm (pusher_push sid b s) = wm s \<and> blocksRecvd (pusher_push sid b s) = blocksRecvd s \<and>
   dupBlocksRecvd (pusher_push sid b s) = dupBlocksRecvd s \<and>
   dupDataRecvd (pusher_push sid b s) = dupDataRecvd s \<and>
   notifications (pusher_push sid b s) = notifications s"
  by (simp add: pusher_push_def split: option.splits)

lemma finish_frame:
  "trace (finish sid s) = trace s \<and> blockstore (finish sid s) = blockstore s \<and>
   wm (finish sid s) = wm s \<and> blocksRecvd (finish sid s) = blocksRecvd s \<and>
   dupBlocksRecvd (finish sid s) = dupBlocksRecvd s \<and>
   dupDataRecvd (finish sid s) = dupDataRecvd s \<and>
   notifications (finish sid s) = notifications s"
  by (simp add: finish_def pusher_end_frame split: option.splits)

lemma cleanupListener_frame:
  "trace (cleanupListener b58 sid k s) = trace s \<and>
   blockstore (cleanupListener b58 sid k s) = blockstore s \<and>
   wm (cleanupListener b58 sid k s) = wm s \<and>
   blocksRecvd (cleanupListener b58 sid k s) = blocksRecvd s \<and>
   dupBlocksRecvd (cleanupListener b58 sid k s) = dupBlocksRecvd s \<and>
   dupDataRecvd (cleanupListener b58 sid k s) = dupDataRecvd s"
  by (simp add: cleanupListener_def Let_def finish_frame removeListener_def split: option.splits)

lemma runListener_frame:
  "blockstore (runListener b58 l arg s) = blockstore s \<and>
   wm (runListener b58 l arg s) = wm s \<and>
   blocksRecvd (runListener b58 l arg s) = blocksRecvd s \<and>
   dupBlocksRecvd (runListener b58 l arg s) = dupBlocksRecvd s \<and>
   dupDataRecvd (runListener b58 l arg s) = dupDataRecvd s"
  by (cases "(b58, l, arg, s)" rule: runListener.cases)
     (simp_all add: cleanupListener_frame pusher_push_frame log_defs)

lemma runListener_trace:
  "\<exists>t. trace (runListener b58 l arg s) = trace s @ t \<and> list_all isLog t"
  by (cases "(b58, l, arg, s)" rule: runListener.cases)
     (simp_all add: cleanupListener_frame pusher_push_frame log_defs)

lemma removeListener_frame:
  "trace (removeListener ev f s) = trace s \<and> blockstore (removeListener ev f s) = blockstore s \<and>
   wm (removeListener ev f s) = wm s \<and> blocksRecvd (removeListener ev f s) = blocksRecvd s \<and>
   dupBlocksRecvd (removeListener ev f s) = dupBlocksRecvd s \<and>
   dupDataRecvd (removeListener ev f s) = dupDataRecvd s \<and>
   streams (removeListener ev f s) = streams s"
  by (simp add: removeListener_def)

lemma listeners_fold_frame:
  "blockstore (foldl (\<lambda>s1 (ev, f, l). runListener b58 l arg (removeListener ev f s1)) s rs) = blockstore s \<and>
   wm (foldl (\<lambda>s1 (ev, f, l). runListener b58 l arg (removeListener ev f s1)) s rs) = wm s \<and>
   blocksRecvd (foldl (\<lambda>s1 (ev, f, l). runListener b58 l arg (removeListener ev f s1)) s rs) = blocksRecvd s \<and>
   dupBlocksRecvd (foldl (\<lambda>s1 (ev, f, l). runListener b58 l arg (removeListener ev f s1)) s rs) = dupBlocksRecvd s \<and>
   dupDataRecvd (foldl (\<lambda>s1 (ev, f, l). runListener b58 l arg (removeListener ev f s1)) s rs) = dupDataRecvd s"
proof (induction rs arbitrary: s)
  case Nil
  show ?case by simp
next
  case (Cons r rs)
  obtain ev f l where r: "r = (ev, f, l)" by (cases r)
  show ?case
    by (simp add: r Cons.IH runListener_frame removeListener_frame)
qed

lemma listeners_fold_trace:
  "\<exists>t. trace (foldl (\<lambda>s1 (ev, f, l). runListener b58 l arg (removeListener ev f s1)) s rs) = trace s @ t
       \<and> list_all isLog t"
proof (induction rs arbitrary: s)
  case Nil
  show ?case by simp
next
  case (Cons r rs)
  obtain ev f l where r: "r = (ev, f, l)" by (cases r)
  obtain t1 where t1: "trace (runListener b58 l arg (removeListener ev f s)) = trace s @ t1"
      "list_all isLog t1"
    using runListener_trace [of b58 l arg "removeListener ev f s"]
    by (auto simp: removeListener_frame)
  obtain t2 where t2: "trace (foldl (\<lambda>s1 (ev, f, l). runListener b58 l arg (removeListener ev f s1))
        (runListener b58 l arg (removeListener ev f s)) rs)
      = trace (runListener b58 l arg (removeListener ev f s)) @ t2" "list_all isLog t2"
    using Cons.IH by blast
  show ?case
    by (rule exI [of _ "t1 @ t2"]) (simp add: r t1 t2)
qed

lemma emit_frame:
  "blockstore (emit b58 name arg s) = blockstore s \<and> wm (emit b58 name arg s) = wm s \<and>
   blocksRecvd (emit b58 name arg s) = blocksRecvd s \<and>
   dupBlocksRecvd (emit b58 name arg s) = dupBlocksRecvd s \<and>
   dupDataRecvd (emit b58 name arg s) = dupDataRecvd s"
  by (simp add: emit_def listeners_fold_frame record_event_def)

lemma emit_trace:
  "\<exists>t. trace (emit b58 name arg s) = trace s @ Emit name arg # t \<and> list_all isLog t"
  using listeners_fold_trace [of b58 arg "record_event (Emit name arg) s"
      "filter (\<lambda>(ev, f, l). ev = name) (notifications s)"]
  by (auto simp: emit_def record_event_def)

subsection \<open>Storing with retries\<close>

lemma blockstore_put_frame:
  assumes "blockstore_put b s = (r, s1)"
  shows "wm s1 = wm s \<and> blocksRecvd s1 = blocksRecvd s \<and> dupBlocksRecvd s1 = dupBlocksRecvd s \<and>
     dupDataRecvd s1 = dupDataRecvd s \<and> streams s1 = streams s \<and>
     notifications s1 = notifications s \<and> nextId s1 = nextId s \<and> nextStream s1 = nextStream s \<and>
     trace s1 = trace s @ [BlockstorePut b (r = None)]"
proof (cases "nextFault (putFaults (blockstore s))")
  case None
  with assms have "r = None" and "s1 = record_event (BlockstorePut b True)
      (s\<lparr>blockstore := (blockstore s)\<lparr>putFaults := tl (putFaults (blockstore s)),
          contents := (contents (blockstore s))(key b \<mapsto> data b)\<rparr>\<rparr>)"
    by (simp_all add: blockstore_put_def Let_def)
  then show ?thesis by (simp add: record_event_def)
next
  case (Some e)
  with assms have "r = Some e" and "s1 = record_event (BlockstorePut b False)
      (s\<lparr>blockstore := (blockstore s)\<lparr>putFaults := tl (putFaults (blockstore s))\<rparr>\<rparr>)"
    by (simp_all add: blockstore_put_def Let_def)
  then show ?thesis by (simp add: record_event_def)
qed

lemma retry_frame:
  "retry b n s = (r, s1) \<Longrightarrow>
     wm s1 = wm s \<and> blocksRecvd s1 = blocksRecvd s \<and> dupBlocksRecvd s1 = dupBlocksRecvd s \<and>
     dupDataRecvd s1 = dupDataRecvd s \<and> streams s1 = streams s \<and>
     notifications s1 = notifications s \<and> nextId s1 = nextId s \<and> nextStream s1 = nextStream s"
proof (induction n arbitrary: s)
  case 0
  then show ?case using blockstore_put_frame [of b s r s1] by simp
next
  case (Suc n)
  obtain r0 s0 where p: "blockstore_put b s = (r0, s0)" by (cases "blockstore_put b s")
  show ?case
  proof (cases r0)
    case None
    with Suc.prems p blockstore_put_frame [OF p] show ?thesis by simp
  next
    case (Some e)
    with Suc.prems p have "retry b n (record_event (SetTimeout 400) s0) = (r, s1)" by simp
    from Suc.IH [OF this] blockstore_put_frame [OF p] show ?thesis
      by (simp add: record_event_def)
  qed
qed

lemma blockstore_put_result:
  assumes "blockstore_put b s = (r, s1)"
  shows "nextFault (putFaults (blockstore s)) = r \<and>
         putFaults (blockstore s1) = tl (putFaults (blockstore s))"
proof (cases "nextFault (putFaults (blockstore s))")
  case None
  with assms show ?thesis by (auto simp: blockstore_put_def Let_def record_event_def)
next
  case (Some e)
  with assms show ?thesis by (auto simp: blockstore_put_def Let_def record_event_def)
qed

lemma retry_result:
  "retry b n s = (r, s1) \<Longrightarrow>
     \<exists>m. m \<le> n \<and> trace s1 = trace s @ failedPuts b m @ [BlockstorePut b (r = None)] \<and>
         nextFault (drop m (putFaults (blockstore s))) = r \<and> (r = None \<or> m = n)"
proof (induction n arbitrary: s)
  case 0
  then have p: "blockstore_put b s = (r, s1)" by simp
  show ?case
    using blockstore_put_frame [OF p] blockstore_put_result [OF p]
    by (intro exI [of _ 0]) (simp add: failedPuts_def)
next
  case (Suc n)
  obtain r0 s0 where p: "blockstore_put b s = (r0, s0)" by (cases "blockstore_put b s")
  note fr = blockstore_put_frame [OF p] and re = blockstore_put_result [OF p]
  show ?case
  proof (cases r0)
    case None
    with Suc.prems p have "r = None" "s1 = s0" by simp_all
    with fr re None show ?thesis
      by (intro exI [of _ 0]) (simp add: failedPuts_def)
  next
    case (Some e)
    with Suc.prems p have "retry b n (record_event (SetTimeout 400) s0) = (r, s1)" by simp
    from Suc.IH [OF this] obtain m where m: "m \<le> n"
        "trace s1 = trace (record_event (SetTimeout 400) s0) @ failedPuts b m @ [BlockstorePut b (r = None)]"
        "nextFault (drop m (putFaults (blockstore (record_event (SetTimeout 400) s0)))) = r"
        "r = None \<or> m = n" by blast
    have t: "trace s1 = trace s @ failedPuts b (Suc m) @ [BlockstorePut b (r = None)]"
      using m(2) fr Some by (simp add: failedPuts_def record_event_def)
    have d: "nextFault (drop (Suc m) (putFaults (blockstore s))) = r"
      using m(3) re by (simp add: record_event_def drop_Suc)
    show ?thesis
      using m(1) m(4) t d by (intro exI [of _ "Suc m"]) simp
  qed
qed

lemma tryPutBlock_frame:
  "tryPutBlock b n s = (r, s1) \<Longrightarrow>
     wm s1 = wm s \<and> blocksRecvd s1 = blocksRecvd s \<and> dupBlocksRecvd s1 = dupBlocksRecvd s \<and>
     dupDataRecvd s1 = dupDataRecvd s \<and> streams s1 = streams s \<and>
     notifications s1 = notifications s \<and> nextId s1 = nextId s \<and> nextStream s1 = nextStream s"
  using retry_frame [of b "n - 1" "log ''trying to put block %s'' [Str (data b)] s" r s1]
  by (simp add: tryPutBlock_def log_defs)

lemma tryPutBlock_result:
  "tryPutBlock b 4 s = (r, s1) \<Longrightarrow>
     \<exists>m. m \<le> 3 \<and> trace s1 = trace s @ Log ''trying to put block %s'' [Str (data b)] # failedPuts b m
                   @ [BlockstorePut b (r = None)] \<and>
         nextFault (drop m (putFaults (blockstore s))) = r \<and> (r = None \<or> m = 3)"
  using retry_result [of b 3 "log ''trying to put block %s'' [Str (data b)] s" r s1]
  by (simp add: tryPutBlock_def log_defs)

lemma hasBlock_run_frame:
  assumes h: "hasBlock_run b58 b s = (r, s1)"
  shows "wm s1 = wm s \<and> blocksRecvd s1 = blocksRecvd s \<and> dupBlocksRecvd s1 = dupBlocksRecvd s \<and>
     dupDataRecvd s1 = dupDataRecvd s"
proof -
  obtain r0 s0 where t: "tryPutBlock b 4 s = (r0, s0)" by (cases "tryPutBlock b 4 s")
  note fr = tryPutBlock_frame [OF t]
  show ?thesis
  proof (cases r0)
    case None
    with h t have "s1 = record_event (EngineReceivedBlock b) (emit b58 (blockEvent (b58 (key b))) (Some b)
          (log ''put block: %s'' [Str (b58 (key b))] s0))"
      by (simp add: hasBlock_run_def)
    with fr show ?thesis by (simp add: emit_frame log_defs)
  next
    case (Some e)
    with h t have "s1 = log_error ''Error writing block to blockstore: %s'' [Str (message_of e)] s0"
      by (simp add: hasBlock_run_def)
    with fr show ?thesis by (simp add: log_defs)
  qed
qed

lemma hasBlock_run_trace:
  assumes "hasBlock_run b58 b s = (r, s1)"
  shows "\<exists>m t. m \<le> 3 \<and> list_all isLog t \<and>
     nextFault (drop m (putFaults (blockstore s))) = r \<and>
     (case r of
        None \<Rightarrow> trace s1 = trace s @ Log ''trying to put block %s'' [Str (data b)] # failedPuts b m @
            [BlockstorePut b True, Log ''put block: %s'' [Str (b58 (key b))],
             Emit (blockEvent (b58 (key b))) (Some b)] @ t @ [EngineReceivedBlock b]
      | Some e \<Rightarrow> m = 3 \<and> t = [] \<and>
          trace s1 = trace s @ Log ''trying to put block %s'' [Str (data b)] # failedPuts b 3 @
            [BlockstorePut b False,
             LogError ''Error writing block to blockstore: %s'' [Str (message_of e)]])"
proof -
  obtain r0 s0 where t: "tryPutBlock b 4 s = (r0, s0)" by (cases "tryPutBlock b 4 s")
  from tryPutBlock_result [OF t] obtain m where m: "m \<le> 3"
      "trace s0 = trace s @ Log ''trying to put block %s'' [Str (data b)] # failedPuts b m
                   @ [BlockstorePut b (r0 = None)]"
      "nextFault (drop m (putFaults (blockstore s))) = r0" "r0 = None \<or> m = 3" by blast
  show ?thesis
  proof (cases r0)
    case None
    obtain u where u: "trace (emit b58 (blockEvent (b58 (key b))) (Some b)
          (log ''put block: %s'' [Str (b58 (key b))] s0))
        = trace (log ''put block: %s'' [Str (b58 (key b))] s0)
            @ Emit (blockEvent (b58 (key b))) (Some b) # u" "list_all isLog u"
      using emit_trace by blast
    from assms t None have r: "r = None" and
      "s1 = record_event (EngineReceivedBlock b) (emit b58 (blockEvent (b58 (key b))) (Some b)
          (log ''put block: %s'' [Str (b58 (key b))] s0))"
      by (simp_all add: hasBlock_run_def)
    then have "trace s1 = trace s @ Log ''trying to put block %s'' [Str (data b)] # failedPuts b m @
            [BlockstorePut b True, Log ''put block: %s'' [Str (b58 (key b))],
             Emit (blockEvent (b58 (key b))) (Some b)] @ u @ [EngineReceivedBlock b]"
      using u(1) m(2) None by (simp add: log_defs)
    with u(2) m(1) m(3) None r show ?thesis
      by (intro exI [of _ m] exI [of _ u]) simp
  next
    case (Some e)
    from assms t Some have r: "r = Some e" and
      "s1 = log_error ''Error writing block to blockstore: %s'' [Str (message_of e)] s0"
      by (simp_all add: hasBlock_run_def)
    then have "trace s1 = trace s @ Log ''trying to put block %s'' [Str (data b)] # failedPuts b 3 @
            [BlockstorePut b False,
             LogError ''Error writing block to blockstore: %s'' [Str (message_of e)]]"
      using m(2) m(4) Some by (simp add: log_defs)
    with m(3) m(4) Some r show ?thesis
      by (intro exI [of _ 3] exI [of _ "[]"]) simp
  qed
qed

subsection \<open>One block of a message\<close>

lemma blockstore_has_result:
  assumes "blockstore_has k s = (r, s1)"
  shows "r = (case nextFault (hasFaults (blockstore s)) of
                Some e \<Rightarrow> Inl e | None \<Rightarrow> Inr (contents (blockstore s) k \<noteq> None)) \<and>
         s1 = s\<lparr>blockstore := (blockstore s)\<lparr>hasFaults := tl (hasFaults (blockstore s))\<rparr>,
                trace := trace s @ [BlockstoreHas k]\<rparr>"
  using assms
  by (cases "nextFault (hasFaults (blockstore s))")
     (auto simp: blockstore_has_def Let_def record_event_def)

lemma updateReceiveCounters_result:
  assumes "updateReceiveCounters b s = (r, s1)"
  shows "blocksRecvd s1 = blocksRecvd s + 1 \<and>
     dupBlocksRecvd s1 = dupBlocksRecvd s + (if reportedPresent (b, s) then 1 else 0) \<and>
     dupDataRecvd s1 = dupDataRecvd s + (if reportedPresent (b, s) then length (data b) else 0) \<and>
     wm s1 = wm s \<and>
     contents (blockstore s1) = contents (blockstore s) \<and>
     trace s1 = trace s @ BlockstoreHas (key b) #
        (case nextFault (hasFaults (blockstore s)) of
           Some e \<Rightarrow> [Log ''blockstore.has error: %s'' [Str (message_of e)]] | None \<Rightarrow> []) \<and>
     (r = None) = (nextFault (hasFaults (blockstore s)) = None \<and>
                   contents (blockstore s) (key b) = None)"
proof -
  obtain r0 s0 where h: "blockstore_has (key b) (s\<lparr>blocksRecvd := blocksRecvd s + 1\<rparr>) = (r0, s0)"
    by (cases "blockstore_has (key b) (s\<lparr>blocksRecvd := blocksRecvd s + 1\<rparr>)")
  note hr = blockstore_has_result [OF h]
  show ?thesis
  proof (cases "nextFault (hasFaults (blockstore s))")
    case (Some e)
    with hr have "r0 = Inl e" by simp
    with assms h have "r = Some e" "s1 = log ''blockstore.has error: %s'' [Str (message_of e)] s0"
      by (simp_all add: updateReceiveCounters_def)
    with hr Some show ?thesis by (simp add: log_defs)
  next
    case None
    show ?thesis
    proof (cases "contents (blockstore s) (key b) = None")
      case True
      with hr None have "r0 = Inr False" by simp
      with assms h have "r = None" "s1 = s0" by (simp_all add: updateReceiveCounters_def)
      with hr None True show ?thesis by simp
    next
      case False
      with hr None have "r0 = Inr True" by simp
      with assms h have "r = Some (Error ''Already have block'')"
        "s1 = s0\<lparr>dupBlocksRecvd := dupBlocksRecvd s0 + 1,
                 dupDataRecvd := dupDataRecvd s0 + length (data b)\<rparr>"
        by (simp_all add: updateReceiveCounters_def)
      with hr None False show ?thesis by simp
    qed
  qed
qed

lemma receiveBlock_result:
  "blocksRecvd (receiveBlock b58 p b s) = blocksRecvd s + 1 \<and>
   dupBlocksRecvd (receiveBlock b58 p b s)
     = dupBlocksRecvd s + (if reportedPresent (b, s) then 1 else 0) \<and>
   dupDataRecvd (receiveBlock b58 p b s)
     = dupDataRecvd s + (if reportedPresent (b, s) then length (data b) else 0) \<and>
   wm (receiveBlock b58 p b s) = wm s \<and>
   (\<exists>t. trace (receiveBlock b58 p b s) = trace s @ BlockstoreHas (key b) #
        (case nextFault (hasFaults (blockstore s)) of
           Some e \<Rightarrow> [Log ''blockstore.has error: %s'' [Str (message_of e)]]
         | None \<Rightarrow> if contents (blockstore s) (key b) = None
                   then [Log ''got block from %s'' [Str p, Str (data b)]] else []) @
        Log ''trying to put block %s'' [Str (data b)] # t \<and>
        (\<exists>ok. BlockstorePut b ok \<in> set t))"
proof -
  obtain r1 s1 where u: "updateReceiveCounters b s = (r1, s1)"
    by (cases "updateReceiveCounters b s")
  define s2 where "s2 = (case r1 of Some e \<Rightarrow> s1
      | None \<Rightarrow> log ''got block from %s'' [Str p, Str (data b)] s1)"
  obtain r2 s3 where h: "hasBlock_run b58 b s2 = (r2, s3)" by (cases "hasBlock_run b58 b s2")
  have rb: "receiveBlock b58 p b s = (case r2 of
        Some e \<Rightarrow> log_error ''receiveMessage hasBlock error: %s'' [Str (message_of e)] s3
      | None \<Rightarrow> s3)"
    by (simp add: receiveBlock_def u s2_def [symmetric] h)
  note ur = updateReceiveCounters_result [OF u]
  note hf = hasBlock_run_frame [OF h]
  have s2_frame: "blocksRecvd s2 = blocksRecvd s1" "dupBlocksRecvd s2 = dupBlocksRecvd s1"
      "dupDataRecvd s2 = dupDataRecvd s1" "wm s2 = wm s1"
    by (cases r1; simp add: s2_def log_defs)+
  have s2_trace: "trace s2 = trace s @ BlockstoreHas (key b) #
        (case nextFault (hasFaults (blockstore s)) of
           Some e \<Rightarrow> [Log ''blockstore.has error: %s'' [Str (message_of e)]]
         | None \<Rightarrow> if contents (blockstore s) (key b) = None
                   then [Log ''got block from %s'' [Str p, Str (data b)]] else [])"
  proof (cases r1)
    case None
    with ur show ?thesis by (simp add: s2_def log_defs)
  next
    case (Some e)
    with ur show ?thesis by (cases "nextFault (hasFaults (blockstore s))") (auto simp: s2_def)
  qed
  from hasBlock_run_trace [OF h] obtain m t where mt: "m \<le> 3"
      "case r2 of
        None \<Rightarrow> trace s3 = trace s2 @ Log ''trying to put block %s'' [Str (data b)] # failedPuts b m @
            [BlockstorePut b True, Log ''put block: %s'' [Str (b58 (key b))],
             Emit (blockEvent (b58 (key b))) (Some b)] @ t @ [EngineReceivedBlock b]
      | Some e \<Rightarrow> m = 3 \<and> t = [] \<and>
          trace s3 = trace s2 @ Log ''trying to put block %s'' [Str (data b)] # failedPuts b 3 @
            [BlockstorePut b False,
             LogError ''Error writing block to blockstore: %s'' [Str (message_of e)]]"
    by blast
  have tr: "\<exists>t. trace (receiveBlock b58 p b s) = trace s2 @
        Log ''trying to put block %s'' [Str (data b)] # t \<and> (\<exists>ok. BlockstorePut b ok \<in> set t)"
  proof (cases r2)
    case None
    with mt rb show ?thesis
      by (intro exI [of _ "failedPuts b m @
            [BlockstorePut b True, Log ''put block: %s'' [Str (b58 (key b))],
             Emit (blockEvent (b58 (key b))) (Some b)] @ t @ [EngineReceivedBlock b]"]) auto
  next
    case (Some e)
    with mt rb show ?thesis
      by (intro exI [of _ "failedPuts b 3 @
            [BlockstorePut b False,
             LogError ''Error writing block to blockstore: %s'' [Str (message_of e)],
             LogError ''receiveMessage hasBlock error: %s'' [Str (message_of e)]]"])
         (auto simp: log_defs)
  qed
  have fr: "blocksRecvd (receiveBlock b58 p b s) = blocksRecvd s3"
      "dupBlocksRecvd (receiveBlock b58 p b s) = dupBlocksRecvd s3"
      "dupDataRecvd (receiveBlock b58 p b s) = dupDataRecvd s3"
      "wm (receiveBlock b58 p b s) = wm s3"
    by (cases r2; simp add: rb log_defs)+
  show ?thesis
    using fr hf s2_frame ur tr s2_trace by simp
qed

subsection \<open>A whole message\<close>

lemma receiveEngine_result:
  "blockstore (receiveEngine p m s) = blockstore s \<and> wm (receiveEngine p m s) = wm s \<and>
   blocksRecvd (receiveEngine p m s) = blocksRecvd s \<and>
   dupBlocksRecvd (receiveEngine p m s) = dupBlocksRecvd s \<and>
   dupDataRecvd (receiveEngine p m s) = dupDataRecvd s \<and>
   trace (receiveEngine p m s) = trace s @
     [Log ''receiving message from %s'' [Str p], EngineMessageReceived p m] @
     (case nextFault (engineFaults s) of
        None \<Rightarrow> [] | Some e \<Rightarrow> [Log ''failed to receive message'' [Msg m]])"
  by (cases "nextFault (engineFaults s)")
     (simp_all add: receiveEngine_def engine_messageReceived_def log_defs)

lemma wantedKeys_result:
  "wantedKeys b58 p bs keys s = (ks, s1) \<Longrightarrow>
     ks = keys @ map key (filter (\<lambda>b. wl_contains (key b) (wl (wm s))) bs) \<and>
     trace s1 = trace s @ map (\<lambda>b. Log ''received un-askes-for %s from %s'' [Str (b58 (key b)), Str p])
                            (filter (\<lambda>b. \<not> wl_contains (key b) (wl (wm s))) bs) \<and>
     blockstore s1 = blockstore s \<and> wm s1 = wm s \<and> blocksRecvd s1 = blocksRecvd s \<and>
     dupBlocksRecvd s1 = dupBlocksRecvd s \<and> dupDataRecvd s1 = dupDataRecvd s"
proof (induction bs arbitrary: keys s)
  case Nil
  then show ?case by simp
next
  case (Cons b bs)
  show ?case
  proof (cases "wl_contains (key b) (wl (wm s))")
    case True
    with Cons.prems have "wantedKeys b58 p bs (keys @ [key b]) s = (ks, s1)" by simp
    from Cons.IH [OF this] True show ?thesis by simp
  next
    case False
    with Cons.prems have "wantedKeys b58 p bs keys
        (log ''received un-askes-for %s from %s'' [Str (b58 (key b)), Str p] s) = (ks, s1)"
      by simp
    from Cons.IH [OF this] False show ?thesis by (simp add: log_defs)
  qed
qed

lemma receiveCancels_result:
  "blockstore (receiveCancels b58 p m s) = blockstore s \<and>
   blocksRecvd (receiveCancels b58 p m s) = blocksRecvd s \<and>
   dupBlocksRecvd (receiveCancels b58 p m s) = dupBlocksRecvd s \<and>
   dupDataRecvd (receiveCancels b58 p m s) = dupDataRecvd s \<and>
   trace (receiveCancels b58 p m s) = trace s @
     [Log ''receiving message from %s'' [Str p], EngineMessageReceived p m] @
     (case nextFault (engineFaults s) of
        None \<Rightarrow> [] | Some e \<Rightarrow> [Log ''failed to receive message'' [Msg m]]) @
     map (\<lambda>b. Log ''received un-askes-for %s from %s'' [Str (b58 (key b)), Str p])
       (filter (\<lambda>b. \<not> wl_contains (key b) (wl (wm s))) (blocks m)) @
     [WmCancelWants (map key (filter (\<lambda>b. wl_contains (key b) (wl (wm s))) (blocks m)))]"
proof -
  obtain ks s1 where w: "wantedKeys b58 p (blocks m) [] (receiveEngine p m s) = (ks, s1)"
    by (cases "wantedKeys b58 p (blocks m) [] (receiveEngine p m s)")
  have rc: "receiveCancels b58 p m s = wm_cancelWants ks s1"
    by (simp add: receiveCancels_def w)
  from wantedKeys_result [OF w] receiveEngine_result [of p m s] show ?thesis
    by (simp add: rc wm_cancelWants_def record_event_def)
qed


lemma receiveBlock_put:
  "\<exists>t. trace (receiveBlock b58 p b s) = trace s @ t \<and> (\<exists>ok. BlockstorePut b ok \<in> set t)"
proof -
  from receiveBlock_result [of b58 p b s] obtain u t where
    t: "trace (receiveBlock b58 p b s) = trace s @ u @ Log ''trying to put block %s'' [Str (data b)] # t"
       "\<exists>ok. BlockstorePut b ok \<in> set t"
    by (metis append_Cons append_Nil)
  show ?thesis
    using t by (intro exI [of _ "u @ Log ''trying to put block %s'' [Str (data b)] # t"]) auto
qed


lemma receiveBlocks_trace:
  "\<exists>t. trace (foldl (\<lambda>s1 b. receiveBlock b58 p b s1) s bs) = trace s @ t \<and>
       (\<forall>b \<in> set bs. \<exists>ok. BlockstorePut b ok \<in> set t)"
proof (induction bs arbitrary: s)
  case Nil
  show ?case by simp
next
  case (Cons b bs)
  from receiveBlock_put [of b58 p b s] obtain t1 where
    t1: "trace (receiveBlock b58 p b s) = trace s @ t1" "\<exists>ok. BlockstorePut b ok \<in> set t1"
    by blast
  from Cons.IH [of "receiveBlock b58 p b s"] obtain t2 where
    t2: "trace (foldl (\<lambda>s1 b. receiveBlock b58 p b s1) (receiveBlock b58 p b s) bs)
           = trace (receiveBlock b58 p b s) @ t2"
        "\<forall>b \<in> set bs. \<exists>ok. BlockstorePut b ok \<in> set t2" by blast
  show ?case
    using t1 t2 by (intro exI [of _ "t1 @ t2"]) auto
qed

lemma receiveMessage_Inr:
  "receiveMessage b58 p m cb s = Inr (case cb of
       Callback n \<Rightarrow> record_event (Called n None) (receiveMessage_run b58 p m s)
     | _ \<Rightarrow> receiveMessage_run b58 p m s)"
  by (cases cb) (simp_all add: receiveMessage_def)




subsection \<open>Get streams\<close>

lemma getBlock_fst: "fst (getBlock b58 k s) = nextStream s"
  by (simp add: getBlock_def getStream_def)

lemma getBlock_miss:
  assumes "nextFault (hasFaults (blockstore s)) = None" and "contents (blockstore s) k = None"
  shows "getBlock b58 k s = (nextStream s,
    s\<lparr>blockstore := (blockstore s)\<lparr>hasFaults := tl (hasFaults (blockstore s))\<rparr>,
      wm := wantmanager_wantBlocks [k] (wm s),
      notifications := notifications s @
        [(unwantEvent (b58 k), nextId s, UnwantListener (nextStream s) k),
         (blockEvent (b58 k), Suc (nextId s), BlockListener (nextStream s))],
      streams := (streams s)(nextStream s \<mapsto>
        \<lparr>unwantListeners = [(b58 k, nextId s)], blockListeners = [(b58 k, Suc (nextId s))],
         finished = True, buffer = [], ended = None\<rparr>),
      nextStream := Suc (nextStream s),
      nextId := Suc (Suc (nextId s)),
      trace := trace s @ [BlockstoreHas k, WmWantBlocks [k]]\<rparr>)"
  using assms
  by (simp add: getBlock_def getStream_def sink_write_def sink_onEnd_def finish_def
        addListener_def once_def blockstore_has_def wm_wantBlocks_def record_event_def Let_def)

lemma wantBlocks_twice:
  "wl m k = None \<Longrightarrow>
     wl (wantmanager_wantBlocks [k] (wantmanager_wantBlocks [k] m)) k
       = Some \<lparr>wpriority = defaultPriority, refcount = 2\<rparr>"
  by (simp add: wantmanager_wantBlocks_def enqueue_def wl_add_def)

lemma cancelWants_single:
  "wantmanager_cancelWants [k] m = (case wl m k of
       None \<Rightarrow> m
     | Some e \<Rightarrow> (if refcount e \<le> 1
         then m\<lparr>wl := (wl m)(k := None),
                queued := queued m @ map (\<lambda>p. (p, [\<lparr>ekey = k, priority = defaultPriority, cancel = True\<rparr>]))
                                        (peers m)\<rparr>
         else m\<lparr>wl := (wl m)(k \<mapsto> e\<lparr>refcount := refcount e - 1\<rparr>)\<rparr>))"
  by (cases "wl m k") (simp_all add: wantmanager_cancelWants_def wl_remove_def enqueue_def)

lemma retry_succeeds:
  "m \<le> n \<Longrightarrow> nextFault (drop m (putFaults (blockstore s))) = None \<Longrightarrow> fst (retry b n s) = None"
proof (induction n arbitrary: s m)
  case 0
  then show ?case by (simp add: blockstore_put_def Let_def)
next
  case (Suc n)
  obtain r0 s0 where p: "blockstore_put b s = (r0, s0)" by (cases "blockstore_put b s")
  note re = blockstore_put_result [OF p]
  show ?case
  proof (cases r0)
    case None
    with p show ?thesis by simp
  next
    case (Some e)
    with re Suc.prems obtain m' where m': "m = Suc m'" by (cases m) auto
    with Suc.prems re have "m' \<le> n"
      "nextFault (drop m' (putFaults (blockstore (record_event (SetTimeout 400) s0)))) = None"
      by (simp_all add: record_event_def drop_Suc)
    from Suc.IH [OF this] p Some show ?thesis by simp
  qed
qed

lemma hasBlock_run_succeeds:
  assumes "m \<le> 3" and "nextFault (drop m (putFaults (blockstore s))) = None"
  shows "fst (hasBlock_run b58 b s) = None"
proof -
  have "fst (tryPutBlock b 4 s) = None"
    using retry_succeeds [of m 3 "log ''trying to put block %s'' [Str (data b)] s" b] assms
    by (simp add: tryPutBlock_def log_defs)
  then show ?thesis
    by (cases "tryPutBlock b 4 s") (simp add: hasBlock_run_def)
qed

lemma filter_event_none:
  "\<forall>r \<in> set xs. fst r \<noteq> n \<Longrightarrow> filter (\<lambda>(ev, f, l). ev = n) xs = []"
  by (induction xs) auto

lemma unwant_not_block: "unwantEvent x \<noteq> blockEvent y"
  by (simp add: unwantEvent_def blockEvent_def)

lemma emit_two_block_listeners:
  assumes "notifications s = N @
      [(unwantEvent kS, i, UnwantListener a k), (blockEvent kS, j, BlockListener a),
       (unwantEvent kS, i', UnwantListener c k), (blockEvent kS, j', BlockListener c)]"
    and "\<forall>r \<in> set N. fst r \<noteq> blockEvent kS"
  shows "emit b58 (blockEvent kS) (Some b) s =
     pusher_push c b (removeListener (blockEvent kS) j'
       (pusher_push a b (removeListener (blockEvent kS) j
          (record_event (Emit (blockEvent kS) (Some b)) s))))"
  using assms(1) filter_event_none [OF assms(2)]
  by (simp add: emit_def unwant_not_block)

lemma hasBlock_run_two_listeners:
  assumes n: "notifications s = N @
      [(unwantEvent (b58 (key b)), i, UnwantListener a k), (blockEvent (b58 (key b)), j, BlockListener a),
       (unwantEvent (b58 (key b)), i', UnwantListener c k), (blockEvent (b58 (key b)), j', BlockListener c)]"
    and old: "\<forall>r \<in> set N. fst r \<noteq> blockEvent (b58 (key b))"
    and sa: "streams s a = Some sta" "ended sta = None"
    and sc: "streams s c = Some stc" "ended stc = None"
    and ac: "a \<noteq> c"
    and run: "hasBlock_run b58 b s = (None, s1)"
  shows "streams s1 a = Some (sta\<lparr>buffer := buffer sta @ [b]\<rparr>) \<and>
         streams s1 c = Some (stc\<lparr>buffer := buffer stc @ [b]\<rparr>) \<and>
         (\<exists>m \<le> 3. trace s1 = trace s @ Log ''trying to put block %s'' [Str (data b)] # failedPuts b m @
            [BlockstorePut b True, Log ''put block: %s'' [Str (b58 (key b))],
             Emit (blockEvent (b58 (key b))) (Some b), EngineReceivedBlock b])"
proof -
  obtain r0 s0 where t: "tryPutBlock b 4 s = (r0, s0)" by (cases "tryPutBlock b 4 s")
  with run have r0: "r0 = None" by (cases r0) (simp_all add: hasBlock_run_def)
  note fr = tryPutBlock_frame [OF t]
  from tryPutBlock_result [OF t] r0 obtain m where m: "m \<le> 3"
      "trace s0 = trace s @ Log ''trying to put block %s'' [Str (data b)] # failedPuts b m
                   @ [BlockstorePut b True]" by auto
  define s2 where "s2 = log ''put block: %s'' [Str (b58 (key b))] s0"
  have n2: "notifications s2 = N @
      [(unwantEvent (b58 (key b)), i, UnwantListener a k), (blockEvent (b58 (key b)), j, BlockListener a),
       (unwantEvent (b58 (key b)), i', UnwantListener c k), (blockEvent (b58 (key b)), j', BlockListener c)]"
    using n fr by (simp add: s2_def log_defs)
  have st2: "streams s2 = streams s" using fr by (simp add: s2_def log_defs)
  have tr2: "trace s2 = trace s0 @ [Log ''put block: %s'' [Str (b58 (key b))]]"
    by (simp add: s2_def log_defs)
  have s1: "s1 = record_event (EngineReceivedBlock b)
      (emit b58 (blockEvent (b58 (key b))) (Some b) s2)"
    using run t r0 by (simp add: hasBlock_run_def s2_def)
  note em = emit_two_block_listeners [OF n2 old, of b58 b]
  have "streams s1 a = Some (sta\<lparr>buffer := buffer sta @ [b]\<rparr>)"
    using sa sc ac st2
    by (simp add: s1 em record_event_def pusher_push_def removeListener_def)
  moreover have "streams s1 c = Some (stc\<lparr>buffer := buffer stc @ [b]\<rparr>)"
    using sa sc ac st2
    by (simp add: s1 em record_event_def pusher_push_def removeListener_def)
  moreover have "trace s1 = trace s @ Log ''trying to put block %s'' [Str (data b)] # failedPuts b m @
            [BlockstorePut b True, Log ''put block: %s'' [Str (b58 (key b))],
             Emit (blockEvent (b58 (key b))) (Some b), EngineReceivedBlock b]"
    using m(2) tr2
    by (simp add: s1 em record_event_def pusher_push_frame removeListener_frame)
  ultimately show ?thesis using m(1) by blast
qed

lemma source_read_fst:
  "fst (source_read b58 sid s) = (case streams s sid of
       None \<Rightarrow> None
     | Some st \<Rightarrow> (case buffer st of [] \<Rightarrow> None | x # xs \<Rightarrow> Some x))"
  by (simp add: source_read_def split: option.splits list.splits)

lemma pusher_end_streams:
  "streams (pusher_end sid e s) sid' = (if sid' = sid
     then map_option (\<lambda>st. if ended st \<noteq> None then st else st\<lparr>ended := Some e\<rparr>) (streams s sid)
     else streams s sid')"
  by (simp add: pusher_end_def split: option.splits)

lemma finish_streams:
  "sid' \<noteq> sid \<Longrightarrow> streams (finish sid s) sid' = streams s sid'"
  "streams s sid = Some st \<Longrightarrow>
     \<exists>st'. streams (finish sid s) sid = Some st' \<and> buffer st' = buffer st"
  by (auto simp: finish_def pusher_end_streams split: option.splits)

lemma cleanupListener_streams:
  "sid' \<noteq> sid \<Longrightarrow> streams (cleanupListener b58 sid k s) sid' = streams s sid'"
  "streams s sid = Some st \<Longrightarrow>
     \<exists>st'. streams (cleanupListener b58 sid k s) sid = Some st' \<and> buffer st' = buffer st"
proof -
  show "sid' \<noteq> sid \<Longrightarrow> streams (cleanupListener b58 sid k s) sid' = streams s sid'"
    by (simp add: cleanupListener_def Let_def finish_streams removeListener_def
          split: option.splits)
next
  assume st: "streams s sid = Some st"
  show "\<exists>st'. streams (cleanupListener b58 sid k s) sid = Some st' \<and> buffer st' = buffer st"
    using st
    by (cases "map_of (unwantListeners st) (b58 k)"; cases "map_of (blockListeners st) (b58 k)")
       (simp_all add: cleanupListener_def Let_def removeListener_def finish_def pusher_end_def)
qed

lemma source_read_streams:
  "sid' \<noteq> sid \<Longrightarrow> streams (snd (source_read b58 sid s)) sid' = streams s sid'"
  "streams s sid = Some st \<Longrightarrow>
     \<exists>st'. streams (snd (source_read b58 sid s)) sid = Some st' \<and> buffer st' = tl (buffer st)"
proof -
  show "sid' \<noteq> sid \<Longrightarrow> streams (snd (source_read b58 sid s)) sid' = streams s sid'"
    by (simp add: source_read_def cleanupListener_streams split: option.splits list.splits)
next
  assume st: "streams s sid = Some st"
  show "\<exists>st'. streams (snd (source_read b58 sid s)) sid = Some st' \<and> buffer st' = tl (buffer st)"
  proof (cases "buffer st")
    case Nil
    with st show ?thesis by (simp add: source_read_def)
  next
    case (Cons x xs)
    have "streams (s\<lparr>streams := (streams s)(sid \<mapsto> st\<lparr>buffer := xs\<rparr>)\<rparr>) sid
        = Some (st\<lparr>buffer := xs\<rparr>)" by simp
    from cleanupListener_streams(2) [OF this, of b58 "key x"] st Cons
    show ?thesis by (simp add: source_read_def)
  qed
qed

subsection \<open>Evaluating the examples\<close>


lemmas get_defs = getBlock_def getStream_def sink_write_def sink_onEnd_def finish_def
  pusher_end_def pusher_push_def addListener_def once_def blockstore_has_def
  blockstore_getStream_def wm_wantBlocks_def wm_cancelWants_def wantmanager_wantBlocks_def
  wantmanager_cancelWants_def wl_add_def wl_remove_def enqueue_def defaultPriority_def
  unwantEvent_def blockEvent_def log_defs

lemma wantingB1_wl:
  "wl (wm wantingB1) = [''Qm1'' \<mapsto> \<lparr>wpriority = 1, refcount = 1\<rparr>]"
  by (simp add: wantingB1_def get_defs new_bitswap_def emptyStore_def k1_def Let_def)

section \<open>Start and stop\<close>

text \<open>
  C3 (as the code has it). \<^verbatim>\<open>start()\<close> runs the want manager, then starts the network,
  then the decision engine; \<^verbatim>\<open>stop()\<close> stops the want manager, then the network, then
  the decision engine, that is, in the same order and not in the reverse one.
\<close>

theorem start_stop_order:
  "trace (start s) = trace s @ [WmRun, NetworkStart, EngineStart] \<and>
   trace (stop s) = trace s @ [WmStop, NetworkStop, EngineStop]"
  by (simp add: start_def stop_def record_event_def)

text \<open>
  C3 (as the spec states it) fails on a fresh orchestrator: the engine is not started
  before the network, and the teardown does not run network, engine, want manager.
\<close>

theorem start_stop_order_counterexample:
  "trace (start (new_bitswap emptyStore [])) \<noteq> [WmRun, EngineStart, NetworkStart] \<and>
   trace (stop (new_bitswap emptyStore [])) \<noteq> [NetworkStop, EngineStop, WmStop]"
  by (simp add: start_def stop_def record_event_def new_bitswap_def)

section \<open>Missing callbacks\<close>

text \<open>
  C10. \<^verbatim>\<open>_receiveMessage\<close> and \<^verbatim>\<open>hasBlock\<close> accept an undefined callback: it is replaced
  by a function that does nothing, so both return normally, with the state they reach
  with that function as their callback, whatever the message, the block and the state.
\<close>

theorem undefined_callback_accepted:
  "(\<exists>s1. receiveMessage b58 p m Undefined s = Inr s1 \<and> receiveMessage b58 p m Noop s = Inr s1) \<and>
   (\<exists>s2. hasBlock b58 b Undefined s = Inr s2 \<and> hasBlock b58 b Noop s = Inr s2)"
  by (simp add: receiveMessage_def hasBlock_def split: prod.splits)

section \<open>Storing a block and announcing it\<close>

text \<open>
  C5. \<^verbatim>\<open>hasBlock(block, cb)\<close> makes at most 4 attempts to put the block, a failed attempt
  that is not the last being followed by a timer of 400 ms. If an attempt succeeds, the
  notification \<^verbatim>\<open>block:<keyB58>\<close> is emitted exactly once, after the successful put
  (what its listeners do leaves only log lines in between), then the decision engine
  is told of the block, and only then \<open>cb\<close> is called, without an error. If all four
  attempts fail, \<open>cb\<close> is called with the error of the last one, and neither the
  notification nor the call of the engine happens.
\<close>

theorem hasBlock_retries_then_notifies:
  "\<exists>m t s1. hasBlock b58 b (Callback c) s = Inr s1 \<and> m \<le> 3 \<and> list_all isLog t \<and>
     (nextFault (drop m (putFaults (blockstore s))) = None \<and>
      trace s1 = trace s @ Log ''trying to put block %s'' [Str (data b)] # failedPuts b m @
          [BlockstorePut b True, Log ''put block: %s'' [Str (b58 (key b))],
           Emit (blockEvent (b58 (key b))) (Some b)] @ t @ [EngineReceivedBlock b, Called c None]
      \<or>
      (\<exists>e. nextFault (drop 3 (putFaults (blockstore s))) = Some e \<and>
           trace s1 = trace s @ Log ''trying to put block %s'' [Str (data b)] # failedPuts b 3 @
             [BlockstorePut b False,
              LogError ''Error writing block to blockstore: %s'' [Str (message_of e)],
              Called c (Some e)]))"
proof -
  obtain r s0 where h: "hasBlock_run b58 b s = (r, s0)" by (cases "hasBlock_run b58 b s")
  have call: "hasBlock b58 b (Callback c) s = Inr (record_event (Called c r) s0)"
    by (simp add: hasBlock_def h)
  from hasBlock_run_trace [OF h] obtain m t where mt: "m \<le> 3" "list_all isLog t"
      "nextFault (drop m (putFaults (blockstore s))) = r"
      "case r of
        None \<Rightarrow> trace s0 = trace s @ Log ''trying to put block %s'' [Str (data b)] # failedPuts b m @
            [BlockstorePut b True, Log ''put block: %s'' [Str (b58 (key b))],
             Emit (blockEvent (b58 (key b))) (Some b)] @ t @ [EngineReceivedBlock b]
      | Some e \<Rightarrow> m = 3 \<and> t = [] \<and>
          trace s0 = trace s @ Log ''trying to put block %s'' [Str (data b)] # failedPuts b 3 @
            [BlockstorePut b False,
             LogError ''Error writing block to blockstore: %s'' [Str (message_of e)]]"
    by blast
  show ?thesis
  proof (cases r)
    case None
    with mt call show ?thesis
      by (intro exI [of _ m] exI [of _ t] exI [of _ "record_event (Called c r) s0"])
         (simp add: record_event_def)
  next
    case (Some e)
    with mt call show ?thesis
      by (intro exI [of _ m] exI [of _ t] exI [of _ "record_event (Called c r) s0"])
         (simp add: record_event_def)
  qed
qed

section \<open>Duplicate blocks\<close>




section \<open>The receive counters\<close>



section \<open>A failing \<open>has\<close> query\<close>



section \<open>Cancels before storage\<close>

text \<open>
  C7. When \<^verbatim>\<open>_receiveMessage\<close> receives a message that carries blocks, the key of a
  block is among the keys to cancel exactly when the local want list contains it, in
  the order of the blocks; for every other block the only effect is the log line about
  an unasked-for block. \<^verbatim>\<open>wm.cancelWants\<close> is called with those keys after these log
  lines and before anything else, so before any block of the message is put.
\<close>

theorem cancels_before_blocks_are_stored:
  assumes "blocks m \<noteq> []"
  shows "\<exists>s1 t. receiveMessage b58 p m cb s = Inr s1 \<and>
     trace s1 = trace s @
       [Log ''receiving message from %s'' [Str p], EngineMessageReceived p m] @
       (case nextFault (engineFaults s) of
          None \<Rightarrow> [] | Some e \<Rightarrow> [Log ''failed to receive message'' [Msg m]]) @
       map (\<lambda>b. Log ''received un-askes-for %s from %s'' [Str (b58 (key b)), Str p])
         (filter (\<lambda>b. \<not> wl_contains (key b) (wl (wm s))) (blocks m)) @
       [WmCancelWants (map key (filter (\<lambda>b. wl_contains (key b) (wl (wm s))) (blocks m)))] @ t \<and>
     (\<forall>b \<in> set (blocks m). \<exists>ok. BlockstorePut b ok \<in> set t)"
proof -
  from receiveBlocks_trace [of b58 p "receiveCancels b58 p m s" "blocks m"] obtain t where
    t: "trace (foldl (\<lambda>s1 b. receiveBlock b58 p b s1) (receiveCancels b58 p m s) (blocks m))
          = trace (receiveCancels b58 p m s) @ t"
       "\<forall>b \<in> set (blocks m). \<exists>ok. BlockstorePut b ok \<in> set t" by blast
  have run: "trace (receiveMessage_run b58 p m s) = trace (receiveCancels b58 p m s) @ t"
    using assms t(1) by (simp add: receiveMessage_run_def)
  note rc = receiveCancels_result [of b58 p m s]
  show ?thesis
  proof (cases cb)
    case (Callback n)
    show ?thesis
      using run rc t(2)
      by (intro exI [of _ "record_event (Called n None) (receiveMessage_run b58 p m s)"]
            exI [of _ "t @ [Called n None]"])
         (auto simp: receiveMessage_Inr Callback record_event_def)
  next
    case Undefined
    show ?thesis
      using run rc t(2)
      by (intro exI [of _ "receiveMessage_run b58 p m s"] exI [of _ t])
         (simp add: receiveMessage_Inr Undefined)
  next
    case Noop
    show ?thesis
      using run rc t(2)
      by (intro exI [of _ "receiveMessage_run b58 p m s"] exI [of _ t])
         (simp add: receiveMessage_Inr Noop)
  qed
qed

text \<open>
  The hypothesis of C7 holds for \<open>msg12\<close>; with a pending get of \<open>k1\<close>, the cancel
  is for \<open>k1\<close> and the log line for the key of \<open>b2\<close>.
\<close>

theorem cancels_before_blocks_are_stored_witness:
  "blocks msg12 \<noteq> [] \<and>
   (\<exists>s1 t. receiveMessage id ''peerA'' msg12 Noop wantingB1 = Inr s1 \<and>
      trace s1 = trace wantingB1 @
        [Log ''receiving message from %s'' [Str ''peerA''], EngineMessageReceived ''peerA'' msg12,
         Log ''received un-askes-for %s from %s'' [Str ''Qm2'', Str ''peerA''],
         WmCancelWants [''Qm1'']] @ t \<and>
      (\<exists>ok. BlockstorePut b1 ok \<in> set t) \<and> (\<exists>ok. BlockstorePut b2 ok \<in> set t))"
proof -
  have h: "blocks msg12 \<noteq> []" by (simp add: msg12_def)
  have e: "engineFaults wantingB1 = []"
    by (simp add: wantingB1_def get_defs new_bitswap_def emptyStore_def k1_def Let_def)
  from cancels_before_blocks_are_stored [OF h, of id "''peerA''" Noop wantingB1] h
  show ?thesis
    by (simp add: e wantingB1_wl wl_contains_def msg12_def b1_def b2_def)
qed

section \<open>Concurrent gets of one key\<close>

text \<open>
  C6. Two gets of a key \<open>k\<close> are registered while the blockstore lacks \<open>k\<close> (both
  \<open>has\<close> queries answer, the key is not wanted yet and nothing listens for its block
  event), and then a block with that key is delivered by \<^verbatim>\<open>hasBlock\<close>, whose put
  succeeds within its four attempts. Then the two gets are distinct streams backed by
  one want-list entry, of reference count 2 while both are pending; the delivery emits
  the block notification once, without any further call of the want manager; and each
  of the two streams yields the block on its first read and nothing on the next one.
\<close>

theorem concurrent_gets_receive_once:
  assumes absent: "contents (blockstore s) (key b) = None"
    and has_ok: "nextFault (hasFaults (blockstore s)) = None"
                "nextFault (tl (hasFaults (blockstore s))) = None"
    and unwanted: "wl (wm s) (key b) = None"
    and nolisten: "\<forall>r \<in> set (notifications s). fst r \<noteq> blockEvent (b58 (key b))"
    and put_ok: "m \<le> 3" "nextFault (drop m (putFaults (blockstore s))) = None"
    and g1: "getBlock b58 (key b) s = (a, s1)"
    and g2: "getBlock b58 (key b) s1 = (c, s2)"
    and hb: "hasBlock_run b58 b s2 = (r, s3)"
    and r1: "source_read b58 a s3 = (x1, s4)"
    and r2: "source_read b58 c s4 = (x2, s5)"
  shows "a \<noteq> c \<and>
     wl (wm s2) (key b) = Some \<lparr>wpriority = defaultPriority, refcount = 2\<rparr> \<and>
     r = None \<and>
     (\<exists>n \<le> 3. trace s3 = trace s2 @ Log ''trying to put block %s'' [Str (data b)] # failedPuts b n @
        [BlockstorePut b True, Log ''put block: %s'' [Str (b58 (key b))],
         Emit (blockEvent (b58 (key b))) (Some b), EngineReceivedBlock b]) \<and>
     x1 = Some b \<and> x2 = Some b \<and>
     fst (source_read b58 a s5) = None \<and> fst (source_read b58 c s5) = None"
proof -
  note m1 = getBlock_miss [OF has_ok(1) absent, of b58]
  from m1 g1 have a: "a = nextStream s" and s1: "s1 =
    s\<lparr>blockstore := (blockstore s)\<lparr>hasFaults := tl (hasFaults (blockstore s))\<rparr>,
      wm := wantmanager_wantBlocks [key b] (wm s),
      notifications := notifications s @
        [(unwantEvent (b58 (key b)), nextId s, UnwantListener (nextStream s) (key b)),
         (blockEvent (b58 (key b)), Suc (nextId s), BlockListener (nextStream s))],
      streams := (streams s)(nextStream s \<mapsto>
        \<lparr>unwantListeners = [(b58 (key b), nextId s)], blockListeners = [(b58 (key b), Suc (nextId s))],
         finished = True, buffer = [], ended = None\<rparr>),
      nextStream := Suc (nextStream s),
      nextId := Suc (Suc (nextId s)),
      trace := trace s @ [BlockstoreHas (key b), WmWantBlocks [key b]]\<rparr>" by simp_all
  have f1: "nextFault (hasFaults (blockstore s1)) = None" "contents (blockstore s1) (key b) = None"
    using has_ok(2) absent by (simp_all add: s1)
  note m2 = getBlock_miss [OF f1, of b58]
  from m2 g2 have c: "c = nextStream s1" and s2: "s2 =
    s1\<lparr>blockstore := (blockstore s1)\<lparr>hasFaults := tl (hasFaults (blockstore s1))\<rparr>,
      wm := wantmanager_wantBlocks [key b] (wm s1),
      notifications := notifications s1 @
        [(unwantEvent (b58 (key b)), nextId s1, UnwantListener (nextStream s1) (key b)),
         (blockEvent (b58 (key b)), Suc (nextId s1), BlockListener (nextStream s1))],
      streams := (streams s1)(nextStream s1 \<mapsto>
        \<lparr>unwantListeners = [(b58 (key b), nextId s1)], blockListeners = [(b58 (key b), Suc (nextId s1))],
         finished = True, buffer = [], ended = None\<rparr>),
      nextStream := Suc (nextStream s1),
      nextId := Suc (Suc (nextId s1)),
      trace := trace s1 @ [BlockstoreHas (key b), WmWantBlocks [key b]]\<rparr>" by simp_all
  have ac: "a \<noteq> c" by (simp add: a c s1)
  have wl2: "wl (wm s2) (key b) = Some \<lparr>wpriority = defaultPriority, refcount = 2\<rparr>"
    using wantBlocks_twice [OF unwanted] by (simp add: s2 s1)
  have n2: "notifications s2 = notifications s @
      [(unwantEvent (b58 (key b)), nextId s, UnwantListener a (key b)),
       (blockEvent (b58 (key b)), Suc (nextId s), BlockListener a),
       (unwantEvent (b58 (key b)), Suc (Suc (nextId s)), UnwantListener c (key b)),
       (blockEvent (b58 (key b)), Suc (Suc (Suc (nextId s))), BlockListener c)]"
    by (simp add: s2 s1 a c)
  define sta where "sta = \<lparr>unwantListeners = [(b58 (key b), nextId s)],
      blockListeners = [(b58 (key b), Suc (nextId s))],
      finished = True, buffer = [], ended = None\<rparr>"
  define stc where "stc = \<lparr>unwantListeners = [(b58 (key b), Suc (Suc (nextId s)))],
      blockListeners = [(b58 (key b), Suc (Suc (Suc (nextId s))))],
      finished = True, buffer = [], ended = None\<rparr>"
  have sa: "streams s2 a = Some sta" "ended sta = None"
    and sc: "streams s2 c = Some stc" "ended stc = None"
    by (simp_all add: s2 s1 a c sta_def stc_def)
  have pf: "nextFault (drop m (putFaults (blockstore s2))) = None"
    using put_ok(2) by (simp add: s2 s1)
  from hasBlock_run_succeeds [OF put_ok(1) pf, of b58 b] hb have r: "r = None" by simp
  with hb have hb': "hasBlock_run b58 b s2 = (None, s3)" by simp
  from hasBlock_run_two_listeners [OF n2 nolisten sa sc ac hb']
  have s3a: "streams s3 a = Some (sta\<lparr>buffer := buffer sta @ [b]\<rparr>)"
    and s3c: "streams s3 c = Some (stc\<lparr>buffer := buffer stc @ [b]\<rparr>)"
    and tr: "\<exists>n \<le> 3. trace s3 = trace s2 @ Log ''trying to put block %s'' [Str (data b)] # failedPuts b n @
        [BlockstorePut b True, Log ''put block: %s'' [Str (b58 (key b))],
         Emit (blockEvent (b58 (key b))) (Some b), EngineReceivedBlock b]"
    by blast+
  have x1: "x1 = Some b"
    using source_read_fst [of b58 a s3] r1 s3a by (simp add: sta_def)
  have s4: "s4 = snd (source_read b58 a s3)" using r1 by simp
  have s4c: "streams s4 c = streams s3 c"
    using source_read_streams(1) [of c a b58 s3] ac by (simp add: s4)
  obtain sta' where s4a: "streams s4 a = Some sta'" "buffer sta' = []"
    using source_read_streams(2) [OF s3a, of b58] by (auto simp: s4 sta_def)
  have x2: "x2 = Some b"
    using source_read_fst [of b58 c s4] r2 s4c s3c by (simp add: stc_def)
  have s5: "s5 = snd (source_read b58 c s4)" using r2 by simp
  have s5a: "streams s5 a = streams s4 a"
    using source_read_streams(1) [of a c b58 s4] ac by (simp add: s5)
  have c4: "streams s4 c = Some (stc\<lparr>buffer := buffer stc @ [b]\<rparr>)" using s4c s3c by simp
  obtain stc' where s5c: "streams s5 c = Some stc'" "buffer stc' = []"
    using source_read_streams(2) [OF c4, of b58] by (auto simp: s5 stc_def)
  have e1: "fst (source_read b58 a s5) = None"
    using s5a s4a by (simp add: source_read_fst)
  have e2: "fst (source_read b58 c s5) = None"
    using s5c by (simp add: source_read_fst)
  from ac wl2 r tr x1 x2 e1 e2 show ?thesis by blast
qed

text \<open>
  The hypotheses of C6 hold for two gets of \<open>k1\<close> on a fresh orchestrator, followed by
  \<^verbatim>\<open>hasBlock\<close> of \<open>b1\<close>.
\<close>

theorem concurrent_gets_receive_once_witness:
  "getBlock id (key b1) (new_bitswap emptyStore [''peerA'']) = (0, wantingB1) \<and>
   getBlock id (key b1) wantingB1 = (1, twoGets) \<and>
   wl (wm twoGets) (key b1) = Some \<lparr>wpriority = 1, refcount = 2\<rparr> \<and>
   hasBlock_run id b1 twoGets = (None, delivered) \<and>
   fst (source_read id 0 delivered) = Some b1 \<and>
   fst (source_read id 1 (snd (source_read id 0 delivered))) = Some b1 \<and>
   fst (source_read id 0 (snd (source_read id 1 (snd (source_read id 0 delivered))))) = None \<and>
   fst (source_read id 1 (snd (source_read id 1 (snd (source_read id 0 delivered))))) = None"
proof -
  let ?s = "new_bitswap emptyStore [''peerA'']"
  have kb: "key b1 = k1" by (simp add: b1_def k1_def)
  have h: "contents (blockstore ?s) (key b1) = None"
      "nextFault (hasFaults (blockstore ?s)) = None"
      "nextFault (tl (hasFaults (blockstore ?s))) = None"
      "wl (wm ?s) (key b1) = None"
      "\<forall>r \<in> set (notifications ?s). fst r \<noteq> blockEvent (id (key b1))"
      "(0::nat) \<le> 3"
      "nextFault (drop 0 (putFaults (blockstore ?s))) = None"
    by (simp_all add: new_bitswap_def emptyStore_def)
  have g1: "getBlock id (key b1) ?s = (0, wantingB1)"
    by (simp add: prod_eq_iff getBlock_fst wantingB1_def kb) (simp add: new_bitswap_def)
  have n1: "nextStream wantingB1 = 1"
    by code_simp
  have g2: "getBlock id (key b1) wantingB1 = (1, twoGets)"
    by (simp add: prod_eq_iff getBlock_fst twoGets_def kb n1)
  have hb: "hasBlock_run id b1 twoGets
      = (fst (hasBlock_run id b1 twoGets), delivered)"
    by (simp add: delivered_def)
  from concurrent_gets_receive_once [OF h g1 g2 hb, of
      "fst (source_read id 0 delivered)" "snd (source_read id 0 delivered)"
      "fst (source_read id 1 (snd (source_read id 0 delivered)))"
      "snd (source_read id 1 (snd (source_read id 0 delivered)))"]
    g1 g2 hb
  show ?thesis by (simp add: defaultPriority_def)
qed

section \<open>A key that the blockstore holds\<close>

text \<open>
  C8 (as the code has it). A key is written to the sink of a get stream that has not
  ended; \<^verbatim>\<open>blockstore.has\<close> answers that the key is held and the read of the block
  succeeds. Then the block is pushed to the source of that stream and nothing else
  changes in any stream, no listener is registered, and \<^verbatim>\<open>wm.wantBlocks\<close> is not called:
  the only call of the want manager is \<^verbatim>\<open>wm.cancelWants([key])\<close>. That call enqueues
  nothing unless it drops the last reference to the key, in which case a cancel, never
  a want, is enqueued for every connected peer.
\<close>

theorem local_hit_emits_directly:
  assumes live: "streams s sid = Some st" "\<not> finished st" "ended st = None"
    and has_ok: "nextFault (hasFaults (blockstore s)) = None"
    and held: "contents (blockstore s) k = Some d"
    and get_ok: "nextFault (getFaults (blockstore s)) = None"
  shows "streams (sink_write b58 sid k s)
           = (streams s)(sid \<mapsto> st\<lparr>buffer := buffer st @ [\<lparr>key = k, data = d\<rparr>]\<rparr>) \<and>
     notifications (sink_write b58 sid k s) = notifications s \<and>
     trace (sink_write b58 sid k s)
       = trace s @ [BlockstoreHas k, BlockstoreGet k, WmCancelWants [k]] \<and>
     wm (sink_write b58 sid k s) = (case wl (wm s) k of
         None \<Rightarrow> wm s
       | Some e \<Rightarrow> (if refcount e \<le> 1
           then (wm s)\<lparr>wl := (wl (wm s))(k := None),
                  queued := queued (wm s) @
                    map (\<lambda>p. (p, [\<lparr>ekey = k, priority = defaultPriority, cancel = True\<rparr>]))
                      (peers (wm s))\<rparr>
           else (wm s)\<lparr>wl := (wl (wm s))(k \<mapsto> e\<lparr>refcount := refcount e - 1\<rparr>)\<rparr>))"
  using assms
  by (cases "wl (wm s) k")
     (simp_all add: sink_write_def blockstore_has_def blockstore_getStream_def wm_cancelWants_def
        pusher_push_def record_event_def Let_def cancelWants_single)

text \<open>
  The hypotheses of C8 hold for \<open>k1\<close> on a new stream of an orchestrator whose
  blockstore holds \<open>b1\<close>: the block is pushed, and nothing is enqueued for the peer.
\<close>

theorem local_hit_emits_directly_witness:
  "streams freshStream 0 = Some \<lparr>unwantListeners = [], blockListeners = [], finished = False,
      buffer = [], ended = None\<rparr> \<and>
   contents (blockstore freshStream) k1 = Some ''hello'' \<and>
   streams (sink_write id 0 k1 freshStream) 0 = Some \<lparr>unwantListeners = [], blockListeners = [],
      finished = False, buffer = [b1], ended = None\<rparr> \<and>
   notifications (sink_write id 0 k1 freshStream) = [] \<and>
   trace (sink_write id 0 k1 freshStream)
     = [BlockstoreHas ''Qm1'', BlockstoreGet ''Qm1'', WmCancelWants [''Qm1'']] \<and>
   queued (wm (sink_write id 0 k1 freshStream)) = []"
proof -
  have st: "streams freshStream 0 = Some \<lparr>unwantListeners = [], blockListeners = [],
      finished = False, buffer = [], ended = None\<rparr>"
    by (simp add: freshStream_def getStream_def new_bitswap_def)
  have h: "nextFault (hasFaults (blockstore freshStream)) = None"
      "contents (blockstore freshStream) k1 = Some ''hello''"
      "nextFault (getFaults (blockstore freshStream)) = None"
    by (simp_all add: freshStream_def getStream_def new_bitswap_def storeWithB1_def k1_def)
  have f: "notifications freshStream = []" "trace freshStream = []"
      "wl (wm freshStream) k1 = None" "queued (wm freshStream) = []"
    by (simp_all add: freshStream_def getStream_def new_bitswap_def)
  from local_hit_emits_directly [OF st _ _ h, of id] st h(2) f show ?thesis
    by (simp add: k1_def b1_def)
qed

text \<open>
  C8 (as the spec states it) fails: a message for the network can result from a key
  that the blockstore holds. After a get of \<open>k1\<close> and a local \<^verbatim>\<open>hasBlock\<close> of \<open>b1\<close>,
  which leaves the want in place, a second get of \<open>k1\<close> finds the block in the
  blockstore, and its \<^verbatim>\<open>wm.cancelWants\<close> enqueues a cancel for the connected peer.
\<close>

theorem local_hit_cancel_counterexample:
  "contents (blockstore afterLocalAdd) k1 = Some ''hello'' \<and>
   queued (wm afterLocalAdd) = [(''peerA'', [\<lparr>ekey = ''Qm1'', priority = 1, cancel = False\<rparr>])] \<and>
   queued (wm (snd (getBlock id k1 afterLocalAdd)))
     = [(''peerA'', [\<lparr>ekey = ''Qm1'', priority = 1, cancel = False\<rparr>]),
        (''peerA'', [\<lparr>ekey = ''Qm1'', priority = 1, cancel = True\<rparr>])] \<and>
   trace (snd (getBlock id k1 afterLocalAdd))
     = trace afterLocalAdd @ [BlockstoreHas ''Qm1'', BlockstoreGet ''Qm1'', WmCancelWants [''Qm1'']]"
  by code_simp

section \<open>Manual unwant\<close>

text \<open>
  C2 (what the code does). Two gets of \<open>k1\<close> are pending when \<^verbatim>\<open>unwantBlocks([k1])\<close> is
  called. The unwant listeners write the line \<^verbatim>\<open>manual unwant: <keyB58>\<close> to the log and
  clean up; both streams then end without an error and without a block. No error with
  that message reaches a get.
\<close>

theorem unwant_only_logs:
  "streams unwanted 0 = Some \<lparr>unwantListeners = [], blockListeners = [], finished = True,
      buffer = [], ended = Some None\<rparr> \<and>
   streams unwanted 1 = Some \<lparr>unwantListeners = [], blockListeners = [], finished = True,
      buffer = [], ended = Some None\<rparr> \<and>
   trace unwanted = [BlockstoreHas ''Qm1'', WmWantBlocks [''Qm1''], BlockstoreHas ''Qm1'',
      WmWantBlocks [''Qm1''], WmUnwantBlocks [''Qm1''], Emit ''unwant:Qm1'' None,
      Log ''manual unwant: Qm1'' [], Log ''manual unwant: Qm1'' []]"
  by code_simp

end
